theory Spec2Isabelle
  imports Complex_Main
begin

section \<open>Values and errors\<close>

text \<open>
  The notebook computes with numpy arrays of float64. A finite array entry is modelled as
  a real number; the three non-finite values of the float format are constructors of their
  own. They arise where the notebook divides by a quantity that can be exactly zero and,
  in the class probabilities, where an exponential overflows. The rounding of a finite result
  is not modelled, except in \<open>scale_affine_f64\<close>.
  An exception raised by numpy is a value of \<open>py_error\<close>; RuntimeError is what an exception
  of the modelling library becomes in Python.
\<close>

datatype py_error = ValueError | IndexError | RuntimeError

datatype fval = Num real | PosInf | NegInf | NaN

text \<open>numpy's true division \<open>a / b\<close> of two finite floats: no exception, only a warning.\<close>

definition fdiv :: "real \<Rightarrow> real \<Rightarrow> fval" where
  "fdiv a b =
     (if b \<noteq> 0 then Num (a / b)
      else if a = 0 then NaN
      else if 0 < a then PosInf else NegInf)"

text \<open>\<open>np.cos\<close>: the cosine of a non-finite value is NaN.\<close>

definition np_cos :: "fval \<Rightarrow> fval" where
  "np_cos v = (case v of Num x \<Rightarrow> Num (cos x) | _ \<Rightarrow> NaN)"

text \<open>\<open>a * v + b\<close> for finite constants \<open>a\<close>, \<open>b\<close>.\<close>

definition fscale_add :: "real \<Rightarrow> fval \<Rightarrow> real \<Rightarrow> fval" where
  "fscale_add a v b =
     (case v of
        Num x \<Rightarrow> Num (a * x + b)
      | PosInf \<Rightarrow> (if 0 < a then PosInf else if a < 0 then NegInf else NaN)
      | NegInf \<Rightarrow> (if 0 < a then NegInf else if a < 0 then PosInf else NaN)
      | NaN \<Rightarrow> NaN)"

definition is_finite :: "fval \<Rightarrow> bool" where
  "is_finite v = (case v of Num x \<Rightarrow> True | _ \<Rightarrow> False)"

definition in_unit :: "fval \<Rightarrow> bool" where
  "in_unit v = (case v of Num x \<Rightarrow> 0 \<le> x \<and> x \<le> 1 | _ \<Rightarrow> False)"

text \<open>\<open>np.min\<close> and \<open>np.max\<close> of a one-dimensional array; an empty array has no minimum.\<close>

fun np_min :: "real list \<Rightarrow> py_error + real" where
  "np_min [] = Inl ValueError"
| "np_min (x # xs) = Inr (fold min xs x)"

fun np_max :: "real list \<Rightarrow> py_error + real" where
  "np_max [] = Inl ValueError"
| "np_max (x # xs) = Inr (fold max xs x)"

section \<open>Scaling of the covariates\<close>

text \<open>
  \<^verbatim>\<open>time = (timeRaw-minTime)/(maxTime-minTime)\<close>, and the same for the latitude: the
  formula in exact arithmetic, with the division by zero of float64. The rounded operations
  are in \<open>scale_affine_f64\<close>.
\<close>

definition scale_affine :: "real \<Rightarrow> real \<Rightarrow> real \<Rightarrow> fval" where
  "scale_affine lo hi raw = fdiv (raw - lo) (hi - lo)"

text \<open>
  \<^verbatim>\<open>lon = 0.5*np.cos( 2.0*np.pi*(lonRaw-minLon)/(maxLon - minLon) )+0.5\<close>
\<close>

definition scale_periodic :: "real \<Rightarrow> real \<Rightarrow> real \<Rightarrow> fval" where
  "scale_periodic lo hi raw =
     fscale_add (1 / 2) (np_cos (fdiv (2 * pi * (raw - lo)) (hi - lo))) (1 / 2)"

record extrema =
  minTime :: real
  maxTime :: real
  minLat :: real
  maxLat :: real
  minLon :: real
  maxLon :: real

text \<open>The three scaled arrays, for given extrema: used for the training data and, with the
  extrema of the training data, for the prediction points.\<close>

definition scale_covariates ::
  "extrema \<Rightarrow> real list \<Rightarrow> real list \<Rightarrow> real list \<Rightarrow> fval list \<times> fval list \<times> fval list" where
  "scale_covariates e timeRaw latRaw lonRaw =
     (map (scale_affine (minTime e) (maxTime e)) timeRaw,
      map (scale_affine (minLat e) (maxLat e)) latRaw,
      map (scale_periodic (minLon e) (maxLon e)) lonRaw)"

text \<open>The extrema of the training data, as the cell after \<open>ReadIceAges\<close> computes them.\<close>

definition training_extrema :: "real list \<Rightarrow> real list \<Rightarrow> real list \<Rightarrow> py_error + extrema" where
  "training_extrema timeRaw latRaw lonRaw =
     (case np_min timeRaw of Inl e \<Rightarrow> Inl e | Inr t0 \<Rightarrow>
     (case np_max timeRaw of Inl e \<Rightarrow> Inl e | Inr t1 \<Rightarrow>
     (case np_min latRaw of Inl e \<Rightarrow> Inl e | Inr a0 \<Rightarrow>
     (case np_max latRaw of Inl e \<Rightarrow> Inl e | Inr a1 \<Rightarrow>
     (case np_min lonRaw of Inl e \<Rightarrow> Inl e | Inr o0 \<Rightarrow>
     (case np_max lonRaw of Inl e \<Rightarrow> Inl e | Inr o1 \<Rightarrow>
        Inr \<lparr>minTime = t0, maxTime = t1, minLat = a0, maxLat = a1,
             minLon = o0, maxLon = o1\<rparr>))))))"

definition scale_training ::
  "real list \<Rightarrow> real list \<Rightarrow> real list \<Rightarrow> py_error + fval list \<times> fval list \<times> fval list" where
  "scale_training timeRaw latRaw lonRaw =
     (case training_extrema timeRaw latRaw lonRaw of
        Inl e \<Rightarrow> Inl e
      | Inr ex \<Rightarrow> Inr (scale_covariates ex timeRaw latRaw lonRaw))"

text \<open>The prediction cell: \<open>newTimeRaw = np.array(range(1984,2041))\<close>, a constant latitude and
  a constant longitude of the same length, scaled with the extrema of the training data.\<close>

definition scale_new ::
  "extrema \<Rightarrow> real list \<Rightarrow> real \<Rightarrow> real \<Rightarrow> fval list \<times> fval list \<times> fval list" where
  "scale_new e newTimeRaw latPt lonPt =
     scale_covariates e newTimeRaw
       (replicate (length newTimeRaw) latPt) (replicate (length newTimeRaw) lonPt)"

section \<open>The range and the rounding of float64\<close>

text \<open>
  The largest float64 is \<open>(2 - 2^-52) * 2^1023\<close>: a result whose magnitude reaches
  \<open>(2 - 2^-53) * 2^1023\<close> is rounded to an infinity. The smallest positive float64 is
  \<open>2^-1074\<close>: a result whose magnitude does not exceed \<open>2^-1075\<close> is rounded to zero.
\<close>

definition f64_overflow :: real where
  "f64_overflow = (2 - 1 / 2 ^ 53) * 2 ^ 1023"

definition f64_underflow :: real where
  "f64_underflow = 1 / 2 ^ 1075"

text \<open>
  The float64 result of an exponential, a product or a quotient whose exact value is \<open>x\<close>, as
  far as the range of the format goes: overflow to an infinity, underflow to zero. The
  rounding of a result within the range is not modelled, and a zero has no sign.
\<close>

definition f64_range :: "real \<Rightarrow> fval" where
  "f64_range x =
     (if f64_overflow \<le> x then PosInf
      else if x \<le> - f64_overflow then NegInf
      else if \<bar>x\<bar> \<le> f64_underflow then Num 0
      else Num x)"

text \<open>The same for a sum or a difference, which does not underflow.\<close>

definition f64_sum_range :: "real \<Rightarrow> fval" where
  "f64_sum_range x =
     (if f64_overflow \<le> x then PosInf
      else if x \<le> - f64_overflow then NegInf
      else Num x)"

text \<open>The sum of two float64 values: NaN is absorbing, and infinities of opposite signs
  give NaN.\<close>

fun fval_add :: "fval \<Rightarrow> fval \<Rightarrow> fval" where
  "fval_add (Num a) (Num b) = f64_sum_range (a + b)"
| "fval_add NaN v = NaN"
| "fval_add v NaN = NaN"
| "fval_add PosInf NegInf = NaN"
| "fval_add NegInf PosInf = NaN"
| "fval_add PosInf v = PosInf"
| "fval_add v PosInf = PosInf"
| "fval_add NegInf v = NegInf"
| "fval_add v NegInf = NegInf"

text \<open>The quotient of two float64 values, without exception: a finite value divided by
  an infinity is zero, an infinity divided by an infinity is NaN, and a division by zero is
  as in \<open>fdiv\<close>.\<close>

fun fval_div :: "fval \<Rightarrow> fval \<Rightarrow> fval" where
  "fval_div (Num a) (Num b) = (if b = 0 then fdiv a b else f64_range (a / b))"
| "fval_div NaN v = NaN"
| "fval_div v NaN = NaN"
| "fval_div (Num a) v = Num 0"
| "fval_div PosInf (Num b) = (if 0 \<le> b then PosInf else NegInf)"
| "fval_div NegInf (Num b) = (if 0 \<le> b then NegInf else PosInf)"
| "fval_div v w = NaN"

text \<open>Rounding to the nearest integer, a tie to the even one.\<close>

definition round_half_even :: "real \<Rightarrow> int" where
  "round_half_even x =
     (let f = \<lfloor>x\<rfloor>
      in if x - of_int f < 1 / 2 then f
         else if 1 / 2 < x - of_int f then f + 1
         else if even f then f else f + 1)"

text \<open>
  Rounding to the nearest float64, a tie to the even significand, before the check of
  overflow: a value of magnitude in \<open>[2^e, 2^(e+1))\<close> is rounded to a multiple of
  \<open>2^(e-52)\<close>, and a value of magnitude below \<open>2^-1022\<close> to a multiple of \<open>2^-1074\<close>.
\<close>

definition f64_round :: "real \<Rightarrow> real" where
  "f64_round x =
     (if x = 0 then 0
      else
        let ulp = 2 powr (of_int (max \<lfloor>log 2 \<bar>x\<bar>\<rfloor> (- 1022)) - 52)
        in of_int (round_half_even (x / ulp)) * ulp)"

text \<open>The float64 result of an operation whose exact value is \<open>x\<close>: the rounded value, or
  an infinity when the rounded value is out of the range.\<close>

definition f64 :: "real \<Rightarrow> fval" where
  "f64 x = f64_sum_range (f64_round x)"

text \<open>The rounded quotient of two float64 values.\<close>

definition f64_div :: "fval \<Rightarrow> fval \<Rightarrow> fval" where
  "f64_div v w =
     (case (v, w) of
        (Num a, Num b) \<Rightarrow> (if b = 0 then fdiv a b else f64 (a / b))
      | _ \<Rightarrow> fval_div v w)"

text \<open>
  \<^verbatim>\<open>(timeRaw-minTime)/(maxTime-minTime)\<close> as float64 computes it, for float64 arguments:
  each of the three operations is rounded.
\<close>

definition scale_affine_f64 :: "real \<Rightarrow> real \<Rightarrow> real \<Rightarrow> fval" where
  "scale_affine_f64 lo hi raw = f64_div (f64 (raw - lo)) (f64 (hi - lo))"
section \<open>Two-dimensional arrays and the block design matrix\<close>

text \<open>
  A two-dimensional numpy array is its shape and its entries. Entries outside the shape are
  never read by the operations below.
\<close>

record 'a nparray =
  shape0 :: nat
  shape1 :: nat
  item :: "nat \<Rightarrow> nat \<Rightarrow> 'a"

text \<open>An array of finite values, as the design matrices and the samples are.\<close>

type_synonym ndarray = "real nparray"

text \<open>\<open>np.zeros((r, c))\<close>\<close>

definition np_zeros :: "nat \<Rightarrow> nat \<Rightarrow> ndarray" where
  "np_zeros r c = \<lparr>shape0 = r, shape1 = c, item = (\<lambda>i j. 0)\<rparr>"

text \<open>\<open>np.array(rows)\<close> for a non-empty list of rows of one length, and \<open>A.tolist()\<close>.\<close>

definition np_array :: "real list list \<Rightarrow> ndarray" where
  "np_array rows =
     \<lparr>shape0 = length rows,
      shape1 = (case rows of [] \<Rightarrow> 0 | r # rs \<Rightarrow> length r),
      item = (\<lambda>i j. if i < length rows \<and> j < length (rows ! i) then rows ! i ! j else 0)\<rparr>"

definition tolist :: "ndarray \<Rightarrow> real list list" where
  "tolist A = map (\<lambda>i. map (\<lambda>j. item A i j) [0..<shape1 A]) [0..<shape0 A]"

text \<open>\<open>len(range(start, stop, step))\<close> for a positive step.\<close>

definition range_len :: "nat \<Rightarrow> nat \<Rightarrow> nat \<Rightarrow> nat" where
  "range_len start stop step = (if start < stop then (stop - start - 1) div step + 1 else 0)"

text \<open>numpy's broadcasting rule for assigning an array of shape \<open>src\<close> to a selection of
  shape \<open>dst\<close>: each dimension is equal, or is 1 in the source.\<close>

definition broadcastable :: "nat \<times> nat \<Rightarrow> nat \<times> nat \<Rightarrow> bool" where
  "broadcastable src dst =
     ((fst src = fst dst \<or> fst src = 1) \<and> (snd src = snd dst \<or> snd src = 1))"

text \<open>
  The assignment \<^verbatim>\<open>V[start::step, lo:hi] = P\<close>. The rows selected are \<open>start\<close>,
  \<open>start + step\<close>, ... below the number of rows; the column slice is clipped to the number
  of columns. A zero step and a shape that cannot be broadcast raise ValueError.
\<close>

definition setitem_strided ::
  "ndarray \<Rightarrow> nat \<Rightarrow> nat \<Rightarrow> nat \<Rightarrow> nat \<Rightarrow> ndarray \<Rightarrow> py_error + ndarray" where
  "setitem_strided V start step lo hi P =
     (if step = 0 then Inl ValueError
      else
        let c0 = min lo (shape1 V);
            c1 = max c0 (min hi (shape1 V));
            nr = range_len start (shape0 V) step
        in if \<not> broadcastable (shape0 P, shape1 P) (nr, c1 - c0) then Inl ValueError
           else Inr (V\<lparr>item :=
                  (\<lambda>i j. if start \<le> i \<and> i < shape0 V \<and> (i - start) mod step = 0
                            \<and> c0 \<le> j \<and> j < c1
                         then item P (if shape0 P = 1 then 0 else (i - start) div step)
                                     (if shape1 P = 1 then 0 else j - c0)
                         else item V i j)\<rparr>))"

text \<open>
  The stamping loop:
  \<^verbatim>\<open>for c in range(numClasses):
    V[c::numClasses, c*termsPerClass:(c+1)*termsPerClass] = partialV\<close>
\<close>

fun stamp :: "nat list \<Rightarrow> nat \<Rightarrow> nat \<Rightarrow> ndarray \<Rightarrow> ndarray \<Rightarrow> py_error + ndarray" where
  "stamp [] numClasses termsPerClass partialV V = Inr V"
| "stamp (c # cs) numClasses termsPerClass partialV V =
     (case setitem_strided V c numClasses (c * termsPerClass) ((c + 1) * termsPerClass) partialV of
        Inl e \<Rightarrow> Inl e
      | Inr V' \<Rightarrow> stamp cs numClasses termsPerClass partialV V')"

text \<open>
  \<^verbatim>\<open>V = np.zeros((numClasses*numObs, numClasses*termsPerClass))\<close> followed by the loop.
  The notebook runs it twice: for the training data, where \<open>termsPerClass\<close> is
  \<open>partialV.shape[1]\<close>, and for the prediction points, with the same \<open>termsPerClass\<close>.
\<close>

definition block_design :: "nat \<Rightarrow> nat \<Rightarrow> nat \<Rightarrow> ndarray \<Rightarrow> py_error + ndarray" where
  "block_design numClasses numObs termsPerClass partialV =
     stamp [0..<numClasses] numClasses termsPerClass partialV
       (np_zeros (numClasses * numObs) (numClasses * termsPerClass))"

section \<open>The class probabilities of the posterior predictive\<close>

text \<open>The three-dimensional array \<open>probs\<close>, indexed by class, prediction point and sample.
  Its entries are results of float64 operations, which can be NaN.\<close>

record ndarray3 =
  dim0 :: nat
  dim1 :: nat
  dim2 :: nat
  item3 :: "nat \<Rightarrow> nat \<Rightarrow> nat \<Rightarrow> fval"

text \<open>\<open>np.zeros((a, b, c))\<close> where the last dimension is a difference of Python integers:
  a negative dimension raises ValueError.\<close>

definition np_zeros3 :: "nat \<Rightarrow> nat \<Rightarrow> int \<Rightarrow> py_error + ndarray3" where
  "np_zeros3 a b c =
     (if c < 0 then Inl ValueError
      else Inr \<lparr>dim0 = a, dim1 = b, dim2 = nat c, item3 = (\<lambda>i j k. Num 0)\<rparr>)"

text \<open>An integer index along an axis of length \<open>n\<close>: negative indices count from the end.\<close>

definition py_index :: "nat \<Rightarrow> int \<Rightarrow> py_error + nat" where
  "py_index n i =
     (if 0 \<le> i \<and> i < int n then Inr (nat i)
      else if - int n \<le> i \<and> i < 0 then Inr (nat (int n + i))
      else Inl IndexError)"

text \<open>\<open>sampMat[:,i]\<close>\<close>

definition column :: "ndarray \<Rightarrow> int \<Rightarrow> py_error + real list" where
  "column A i =
     (case py_index (shape1 A) i of
        Inl e \<Rightarrow> Inl e
      | Inr k \<Rightarrow> Inr (map (\<lambda>r. item A r k) [0..<shape0 A]))"

text \<open>\<open>np.dot(V, s)\<close> of a matrix and a vector.\<close>

definition np_dot :: "ndarray \<Rightarrow> real list \<Rightarrow> py_error + real list" where
  "np_dot V s =
     (if shape1 V \<noteq> length s then Inl ValueError
      else Inr (map (\<lambda>r. sum_list (map (\<lambda>j. item V r j * s ! j) [0..<shape1 V]))
                  [0..<shape0 V]))"

text \<open>\<open>v.reshape(-1,numClasses).T\<close>: entry \<open>(c, p)\<close> of the result is \<open>v[p*numClasses + c]\<close>.\<close>

definition reshape_T :: "real list \<Rightarrow> nat \<Rightarrow> py_error + ndarray" where
  "reshape_T v numClasses =
     (if numClasses = 0 \<or> length v mod numClasses \<noteq> 0 then Inl ValueError
      else Inr \<lparr>shape0 = numClasses, shape1 = length v div numClasses,
                item = (\<lambda>c p. if c < numClasses \<and> p < length v div numClasses
                                then v ! (p * numClasses + c) else 0)\<rparr>)"

text \<open>\<open>np.exp(A)\<close> of an array of finite values: an exponential overflows to infinity and
  underflows to zero.\<close>

definition np_exp :: "ndarray \<Rightarrow> fval nparray" where
  "np_exp A = \<lparr>shape0 = shape0 A, shape1 = shape1 A, item = (\<lambda>i j. f64_range (exp (item A i j)))\<rparr>"

text \<open>\<open>np.sum(A,axis=0)\<close>: the entries of each column added in the order of the rows.\<close>

definition sum_axis0 :: "fval nparray \<Rightarrow> fval list" where
  "sum_axis0 A =
     map (\<lambda>p. foldl fval_add (Num 0) (map (\<lambda>c. item A c p) [0..<shape0 A])) [0..<shape1 A]"

text \<open>\<open>A /= d\<close> for a vector \<open>d\<close> with one entry per column of \<open>A\<close>.\<close>

definition divide_columns :: "fval nparray \<Rightarrow> fval list \<Rightarrow> fval nparray" where
  "divide_columns A d =
     A\<lparr>item := (\<lambda>c p. if p < shape1 A then fval_div (item A c p) (d ! p) else Num 0)\<rparr>"

text \<open>\<open>probs[:,:,k] = A\<close>\<close>

definition setitem_slice :: "ndarray3 \<Rightarrow> int \<Rightarrow> fval nparray \<Rightarrow> py_error + ndarray3" where
  "setitem_slice T i A =
     (case py_index (dim2 T) i of
        Inl e \<Rightarrow> Inl e
      | Inr k \<Rightarrow>
          if \<not> broadcastable (shape0 A, shape1 A) (dim0 T, dim1 T) then Inl ValueError
          else Inr (T\<lparr>item3 :=
                  (\<lambda>c p k'. if k' = k \<and> c < dim0 T \<and> p < dim1 T
                            then item A (if shape0 A = 1 then 0 else c)
                                        (if shape1 A = 1 then 0 else p)
                            else item3 T c p k')\<rparr>))"

text \<open>
  The body of the loop, up to the assignment:
  \<^verbatim>\<open>currProb = np.exp(np.dot(V, sampMat[:,i]).reshape(-1,numClasses).T)
currProb /= np.sum(currProb,axis=0)\<close>
\<close>

definition curr_prob :: "nat \<Rightarrow> ndarray \<Rightarrow> ndarray \<Rightarrow> int \<Rightarrow> py_error + fval nparray" where
  "curr_prob numClasses V sampMat i =
     (case column sampMat i of Inl e \<Rightarrow> Inl e | Inr s \<Rightarrow>
     (case np_dot V s of Inl e \<Rightarrow> Inl e | Inr v \<Rightarrow>
     (case reshape_T v numClasses of Inl e \<Rightarrow> Inl e | Inr L \<Rightarrow>
        Inr (divide_columns (np_exp L) (sum_axis0 (np_exp L))))))"

text \<open>
  \<^verbatim>\<open>for i in range(burnIn,options['NumSamples']):
    ...
    probs[:,:,i-burnIn] = currProb\<close>
\<close>

fun probs_loop ::
  "int list \<Rightarrow> nat \<Rightarrow> int \<Rightarrow> ndarray \<Rightarrow> ndarray \<Rightarrow> ndarray3 \<Rightarrow> py_error + ndarray3" where
  "probs_loop [] numClasses burnIn V sampMat probs = Inr probs"
| "probs_loop (i # rest) numClasses burnIn V sampMat probs =
     (case curr_prob numClasses V sampMat i of Inl e \<Rightarrow> Inl e | Inr currProb \<Rightarrow>
     (case setitem_slice probs (i - burnIn) currProb of Inl e \<Rightarrow> Inl e | Inr probs' \<Rightarrow>
        probs_loop rest numClasses burnIn V sampMat probs'))"

text \<open>
  The whole cell, with \<open>M = newTimeRaw.shape[0]\<close>:
  \<^verbatim>\<open>probs = np.zeros((numClasses, newTimeRaw.shape[0], options['NumSamples']-burnIn ))\<close>
  and the loop over \<open>range(burnIn, NumSamples)\<close>.
\<close>

definition class_probabilities ::
  "nat \<Rightarrow> nat \<Rightarrow> int \<Rightarrow> int \<Rightarrow> ndarray \<Rightarrow> ndarray \<Rightarrow> py_error + ndarray3" where
  "class_probabilities numClasses M NumSamples burnIn V sampMat =
     (case np_zeros3 numClasses M (NumSamples - burnIn) of
        Inl e \<Rightarrow> Inl e
      | Inr probs \<Rightarrow> probs_loop [burnIn..NumSamples - 1] numClasses burnIn V sampMat probs)"


section \<open>Summary statistics over the sample axis\<close>









section \<open>The posterior density as a graph of model pieces\<close>

text \<open>
  The notebook builds the posterior with the modelling library MUQ, which is not part of the
  repository: the pieces, their evaluation and the evaluation of a graph are modelled from
  the specification; the nodes and edges of the graph are those of the notebook.
\<close>

text \<open>\<open>np.eye(n)\<close> and the product \<open>a * A\<close> of a number and an array.\<close>

definition np_eye :: "nat \<Rightarrow> ndarray" where
  "np_eye n = \<lparr>shape0 = n, shape1 = n, item = (\<lambda>i j. if i = j \<and> i < n then 1 else 0)\<rparr>"

definition scale_array :: "real \<Rightarrow> ndarray \<Rightarrow> ndarray" where
  "scale_array a A = A\<lparr>item := (\<lambda>i j. a * item A i j)\<rparr>"

text \<open>
  Modelled from the spec: the log-density of \<open>mm.Gaussian(mu, cov).AsDensity()\<close> (MUQ, absent
  from the repository), for a diagonal covariance as the notebook's \<open>100*np.eye(n)\<close>: "Prior
  (log-density of a zero-mean Gaussian with fixed, typically diagonal, covariance over the
  full parameter vector)".
\<close>

definition gaussian_log_density :: "real list \<Rightarrow> ndarray \<Rightarrow> real list \<Rightarrow> real" where
  "gaussian_log_density mu cov x =
     - (1 / 2) * sum_list (map (\<lambda>i. (x ! i - mu ! i)\<^sup>2 / item cov i i) [0..<length mu])
     - (1 / 2) * sum_list (map (\<lambda>i. ln (2 * pi * item cov i i)) [0..<length mu])"

text \<open>
  Modelled from the spec: the log-density of \<open>mm.MultiLogisticLikelihood(numClasses, ages)\<close>
  (MUQ, absent from the repository): "multinomial-logit log-probability of observed class
  labels given linear predictors, i.e. \<open>log softmax(predictor)[observed_class]\<close> summed over
  observations", the predictors being interleaved by class: the predictor of observation
  \<open>n\<close> and class \<open>c\<close> is entry \<open>n * numClasses + c\<close>.
\<close>

definition multi_logistic_log_likelihood :: "nat \<Rightarrow> nat list \<Rightarrow> real list \<Rightarrow> real" where
  "multi_logistic_log_likelihood numClasses ages s =
     sum_list (map (\<lambda>n. s ! (n * numClasses + ages ! n)
                        - ln (sum_list (map (\<lambda>c. exp (s ! (n * numClasses + c))) [0..<numClasses])))
                 [0..<length ages])"

text \<open>
  Modelled from the spec: the kinds of pieces of MUQ (absent from the repository) that the
  notebook creates, "node kinds {Gaussian, LinearMap, MultinomialLogit, Product}" and the
  identity, each with the arguments the notebook gives it.
\<close>

datatype modpiece =
    IdentityOperator nat
  | DensityProduct nat
  | GaussianDensity "real list" ndarray
  | DenseLinearOperator ndarray
  | MultiLogisticLikelihood nat "nat list"

text \<open>Modelled from the spec: the number of inputs of a piece (MUQ, absent from the
  repository); \<open>DensityProduct(k)\<close> has \<open>k\<close> inputs, the other pieces have one.\<close>

fun input_count :: "modpiece \<Rightarrow> nat" where
  "input_count (DensityProduct k) = k"
| "input_count p = 1"

text \<open>
  Modelled from the spec: the evaluation of one piece (MUQ, absent from the repository) on
  the list of its input vectors. Every piece has one output vector; a density returns its
  log-density as a vector of length one; the product of densities adds the log-densities
  ("a Posterior node combining Prior and Likelihood log-densities by addition"). A wrong
  number or size of inputs is an error.
\<close>

fun evaluate_piece :: "modpiece \<Rightarrow> real list list \<Rightarrow> py_error + real list" where
  "evaluate_piece (IdentityOperator n) [x] =
     (if length x = n then Inr x else Inl RuntimeError)"
| "evaluate_piece (DensityProduct k) xs =
     (if length xs = k \<and> list_all (\<lambda>x. length x = 1) xs then Inr [sum_list (map hd xs)]
      else Inl RuntimeError)"
| "evaluate_piece (GaussianDensity mu cov) [x] =
     (if length x = length mu \<and> shape0 cov = length mu \<and> shape1 cov = length mu
      then Inr [gaussian_log_density mu cov x] else Inl RuntimeError)"
| "evaluate_piece (DenseLinearOperator A) [x] =
     (case np_dot A x of Inl e \<Rightarrow> Inl RuntimeError | Inr y \<Rightarrow> Inr y)"
| "evaluate_piece (MultiLogisticLikelihood numClasses ages) [s] =
     (if length s = numClasses * length ages \<and> list_all (\<lambda>y. y < numClasses) ages
      then Inr [multi_logistic_log_likelihood numClasses ages s] else Inl RuntimeError)"
| "evaluate_piece p xs = Inl RuntimeError"

text \<open>
  Modelled from the spec: the graph of MUQ (absent from the repository), "an explicit directed
  acyclic structure with typed input/output slots": named pieces, and edges from an output of
  one node to an input of another.
\<close>

record edge =
  source :: string
  source_output :: nat
  target :: string
  target_input :: nat

record workgraph =
  nodes :: "(string \<times> modpiece) list"
  edges :: "edge list"

text \<open>Modelled from the spec: \<open>mm.WorkGraph()\<close>, the empty graph.\<close>

definition WorkGraph :: workgraph where
  "WorkGraph = \<lparr>nodes = [], edges = []\<rparr>"

text \<open>Modelled from the spec: \<open>graph.AddNode(piece, name)\<close> and
  \<open>graph.AddEdge(source, output, target, input)\<close>; the checks that the library makes when a
  node or an edge is added are left to the evaluation.\<close>

definition AddNode :: "workgraph \<Rightarrow> modpiece \<Rightarrow> string \<Rightarrow> workgraph" where
  "AddNode g piece name = g\<lparr>nodes := nodes g @ [(name, piece)]\<rparr>"

definition AddEdge :: "workgraph \<Rightarrow> string \<Rightarrow> nat \<Rightarrow> string \<Rightarrow> nat \<Rightarrow> workgraph" where
  "AddEdge g src out tgt inp =
     g\<lparr>edges := edges g @ [\<lparr>source = src, source_output = out, target = tgt, target_input = inp\<rparr>]\<rparr>"

text \<open>The first error of a list of results, or all their values.\<close>

fun sequence_results :: "('e + 'a) list \<Rightarrow> 'e + 'a list" where
  "sequence_results [] = Inr []"
| "sequence_results (r # rs) =
     (case r of
        Inl e \<Rightarrow> Inl e
      | Inr x \<Rightarrow> (case sequence_results rs of Inl e \<Rightarrow> Inl e | Inr xs \<Rightarrow> Inr (x # xs)))"

text \<open>
  Modelled from the spec: the evaluation of a node of the graph (MUQ, absent from the
  repository) at the input vector \<open>m\<close> of the graph. Each input of the node is the output of
  the node its edge comes from; an input without an edge is an input of the graph. The first
  argument bounds the depth of the recursion: when it is used up, the graph has a path
  longer than the bound, and the evaluation fails.
\<close>

fun evaluate_node :: "nat \<Rightarrow> workgraph \<Rightarrow> real list \<Rightarrow> string \<Rightarrow> py_error + real list" where
  "evaluate_node 0 g m name = Inl RuntimeError"
| "evaluate_node (Suc depth) g m name =
     (case map_of (nodes g) name of
        None \<Rightarrow> Inl RuntimeError
      | Some piece \<Rightarrow>
          (case sequence_results
                  (map (\<lambda>slot.
                          case find (\<lambda>e. target e = name \<and> target_input e = slot) (edges g) of
                            None \<Rightarrow> Inr m
                          | Some e \<Rightarrow>
                              if source_output e = 0 then evaluate_node depth g m (source e)
                              else Inl RuntimeError)
                       [0..<input_count piece]) of
             Inl e \<Rightarrow> Inl e
           | Inr inputs \<Rightarrow> evaluate_piece piece inputs))"

text \<open>Modelled from the spec: \<open>graph.CreateModPiece(name)\<close> (MUQ, absent from the
  repository), evaluated at \<open>m\<close>. No path of an acyclic graph has more nodes than the
  graph, which bounds the depth.\<close>

definition CreateModPiece :: "workgraph \<Rightarrow> string \<Rightarrow> real list \<Rightarrow> py_error + real list" where
  "CreateModPiece g name m = evaluate_node (length (nodes g)) g m name"

text \<open>
  The graph of the notebook:
  \<^verbatim>\<open>forwardModel = mm.DenseLinearOperator(V)
likelihood = mm.MultiLogisticLikelihood(numClasses,ages)
prior = mm.Gaussian(np.zeros(V.shape[1]), 100*np.eye(V.shape[1])).AsDensity()
graph = mm.WorkGraph()
graph.AddNode(mm.IdentityOperator(V.shape[1]),"Parameters")
graph.AddNode(mm.DensityProduct(2), "Posterior")
graph.AddNode(prior,"Prior")
graph.AddNode(forwardModel, "ForwardModel")
graph.AddNode(likelihood, "Likelihood")
graph.AddEdge("Parameters",0, "Prior",0)
graph.AddEdge("Parameters",0,"ForwardModel",0)
graph.AddEdge("ForwardModel",0, "Likelihood",0)
graph.AddEdge("Likelihood",0, "Posterior",1)
graph.AddEdge("Prior",0, "Posterior",0)\<close>
\<close>

definition prior_mean :: "ndarray \<Rightarrow> real list" where
  "prior_mean V = replicate (shape1 V) 0"

definition prior_covariance :: "ndarray \<Rightarrow> ndarray" where
  "prior_covariance V = scale_array 100 (np_eye (shape1 V))"

definition posterior_graph :: "ndarray \<Rightarrow> nat \<Rightarrow> nat list \<Rightarrow> workgraph" where
  "posterior_graph V numClasses ages =
     (let forwardModel = DenseLinearOperator V;
          likelihood = MultiLogisticLikelihood numClasses ages;
          prior = GaussianDensity (prior_mean V) (prior_covariance V);
          g0 = WorkGraph;
          g1 = AddNode g0 (IdentityOperator (shape1 V)) ''Parameters'';
          g2 = AddNode g1 (DensityProduct 2) ''Posterior'';
          g3 = AddNode g2 prior ''Prior'';
          g4 = AddNode g3 forwardModel ''ForwardModel'';
          g5 = AddNode g4 likelihood ''Likelihood'';
          g6 = AddEdge g5 ''Parameters'' 0 ''Prior'' 0;
          g7 = AddEdge g6 ''Parameters'' 0 ''ForwardModel'' 0;
          g8 = AddEdge g7 ''ForwardModel'' 0 ''Likelihood'' 0;
          g9 = AddEdge g8 ''Likelihood'' 0 ''Posterior'' 1
      in AddEdge g9 ''Prior'' 0 ''Posterior'' 0)"

text \<open>\<open>graph.CreateModPiece("Posterior")\<close> evaluated at a parameter vector.\<close>

definition posterior_log_density ::
  "ndarray \<Rightarrow> nat \<Rightarrow> nat list \<Rightarrow> real list \<Rightarrow> py_error + real list" where
  "posterior_log_density V numClasses ages m =
     CreateModPiece (posterior_graph V numClasses ages) ''Posterior'' m"

text \<open>From the per-class design matrix to the posterior: \<open>numObs = len(ages)\<close>,
  \<open>termsPerClass = partialV.shape[1]\<close>, the stamping loop, and the graph.\<close>

definition posterior_of_design ::
  "nat \<Rightarrow> ndarray \<Rightarrow> nat list \<Rightarrow> real list \<Rightarrow> py_error + real list" where
  "posterior_of_design numClasses partialV ages m =
     (case block_design numClasses (length ages) (shape1 partialV) partialV of
        Inl e \<Rightarrow> Inl e
      | Inr V \<Rightarrow> posterior_log_density V numClasses ages m)"

section \<open>Facts about the range of float64\<close>

lemma f64_overflow_bounds: "(2::real) ^ 1023 \<le> f64_overflow \<and> f64_overflow \<le> 2 ^ 1024"
proof -
  have a: "(1::real) \<le> 2 - 1 / 2 ^ 53" and b: "2 - 1 / 2 ^ 53 \<le> (2::real)" by simp_all
  have "1 * (2::real) ^ 1023 \<le> (2 - 1 / 2 ^ 53) * 2 ^ 1023"
    using a by (rule mult_right_mono) simp
  moreover have "(2 - 1 / 2 ^ 53) * (2::real) ^ 1023 \<le> 2 * 2 ^ 1023"
    using b by (rule mult_right_mono) simp
  moreover have "2 * (2::real) ^ 1023 = 2 ^ 1024"
    using power_Suc [of "2::real" 1023] by simp
  ultimately show ?thesis by (simp add: f64_overflow_def)
qed

lemma f64_overflow_pos: "0 < f64_overflow"
proof -
  have "(0::real) < 2 ^ 1023" by simp
  then show ?thesis using f64_overflow_bounds by linarith
qed




lemma f64_thousand: "f64_underflow < 1 / 1000 \<and> 1000 < f64_overflow"
proof -
  have "(1000::real) < 2 ^ 10" by simp
  also have "(2::real) ^ 10 \<le> 2 ^ 1023" by (rule power_increasing) simp_all
  finally have a: "1000 < f64_overflow" using f64_overflow_bounds by linarith
  have "(2::real) ^ 10 \<le> 2 ^ 1075" by (rule power_increasing) simp_all
  moreover have "(1000::real) < 2 ^ 10" by simp
  ultimately have "(1000::real) < 2 ^ 1075" by (rule less_le_trans [rotated])
  then have "f64_underflow < 1 / 1000" by (simp add: f64_underflow_def field_simps)
  then show ?thesis using a by simp
qed




lemma f64_range_Num:
  assumes "1 / 1000 \<le> x" and "x \<le> 1000"
  shows "f64_range x = Num x" and "f64_sum_range x = Num x"
  using assms f64_thousand by (simp_all add: f64_range_def f64_sum_range_def)

lemma f64_range_0: "f64_range 0 = Num 0" "f64_sum_range 0 = Num 0"
  using f64_thousand by (simp_all add: f64_range_def f64_sum_range_def f64_underflow_def)

section \<open>Properties of the rounding\<close>

text \<open>Rounding to the nearest float64 is odd and monotone, and a value below the overflow
  threshold is rounded to a finite one; the scaling with rounded operations is therefore
  monotone on the raw range, with values in \<open>[0,1]\<close>.\<close>

lemma round_half_even_cases:
  "(x - of_int \<lfloor>x\<rfloor> < 1 / 2 \<and> round_half_even x = \<lfloor>x\<rfloor>)
   \<or> (1 / 2 < x - of_int \<lfloor>x\<rfloor> \<and> round_half_even x = \<lfloor>x\<rfloor> + 1)
   \<or> (x - of_int \<lfloor>x\<rfloor> = 1 / 2 \<and> even \<lfloor>x\<rfloor> \<and> round_half_even x = \<lfloor>x\<rfloor>)
   \<or> (x - of_int \<lfloor>x\<rfloor> = 1 / 2 \<and> odd \<lfloor>x\<rfloor> \<and> round_half_even x = \<lfloor>x\<rfloor> + 1)"
  unfolding round_half_even_def Let_def by (cases "x - of_int \<lfloor>x\<rfloor> < 1 / 2") auto

lemma round_half_even_bounds:
  "\<lfloor>x\<rfloor> \<le> round_half_even x \<and> round_half_even x \<le> \<lfloor>x\<rfloor> + 1"
  using round_half_even_cases [of x] by auto

lemma round_half_even_int: "round_half_even (of_int n) = n"
  by (simp add: round_half_even_def)

lemma round_half_even_mono:
  assumes "x \<le> y"
  shows "round_half_even x \<le> round_half_even y"
proof (cases "\<lfloor>x\<rfloor> = \<lfloor>y\<rfloor>")
  case True
  have d: "x - of_int \<lfloor>x\<rfloor> \<le> y - of_int \<lfloor>x\<rfloor>" using assms by simp
  show ?thesis
    using round_half_even_cases [of x] round_half_even_cases [of y] d unfolding True [symmetric]
    by (elim disjE conjE) simp_all
next
  case False
  have "\<lfloor>x\<rfloor> \<le> \<lfloor>y\<rfloor>" using assms by (rule floor_mono)
  then have "\<lfloor>x\<rfloor> + 1 \<le> \<lfloor>y\<rfloor>" using False by simp
  then show ?thesis
    using round_half_even_bounds [of x] round_half_even_bounds [of y] by linarith
qed

lemma round_half_even_minus: "round_half_even (- x) = - round_half_even x"
proof (cases "x = of_int \<lfloor>x\<rfloor>")
  case True
  then have "round_half_even x = \<lfloor>x\<rfloor>" by (metis round_half_even_int)
  moreover have "- x = of_int (- \<lfloor>x\<rfloor>)" using True by simp
  then have "round_half_even (- x) = - \<lfloor>x\<rfloor>" by (metis round_half_even_int)
  ultimately show ?thesis by simp
next
  case False
  have "of_int \<lfloor>x\<rfloor> \<le> x" by simp
  then have lo: "of_int \<lfloor>x\<rfloor> < x" using False by linarith
  have hi: "x < of_int \<lfloor>x\<rfloor> + 1" by linarith
  have c: "real_of_int (- \<lfloor>x\<rfloor> - 1) = - of_int \<lfloor>x\<rfloor> - 1" by simp
  have "of_int (- \<lfloor>x\<rfloor> - 1) \<le> - x" and "- x < of_int (- \<lfloor>x\<rfloor> - 1) + 1"
    unfolding c using lo hi by linarith+
  then have f: "\<lfloor>- x\<rfloor> = - \<lfloor>x\<rfloor> - 1" by (rule floor_unique)
  have d: "- x - of_int \<lfloor>- x\<rfloor> = 1 - (x - of_int \<lfloor>x\<rfloor>)" unfolding f by simp
  have ev: "even \<lfloor>- x\<rfloor> = odd \<lfloor>x\<rfloor>" unfolding f by simp
  show ?thesis
    using round_half_even_cases [of x] round_half_even_cases [of "- x"] unfolding d ev
    unfolding f
    by (elim disjE conjE) simp_all
qed


lemma round_half_even_pos:
  assumes "1 / 2 < x"
  shows "1 \<le> round_half_even x"
proof -
  have f: "0 \<le> \<lfloor>x\<rfloor>" using assms by simp
  have g: "x - of_int \<lfloor>x\<rfloor> \<le> 1 / 2 \<Longrightarrow> 1 \<le> \<lfloor>x\<rfloor>"
  proof -
    assume "x - of_int \<lfloor>x\<rfloor> \<le> 1 / 2"
    then have "0 < real_of_int \<lfloor>x\<rfloor>" using assms by linarith
    then show ?thesis by simp
  qed
  show ?thesis
    using round_half_even_cases [of x] f g by (elim disjE conjE) simp_all
qed

lemma f64_exponent:
  fixes x :: real
  assumes "x \<noteq> 0"
  shows "2 powr of_int \<lfloor>log 2 \<bar>x\<bar>\<rfloor> \<le> \<bar>x\<bar>"
    and "\<bar>x\<bar> < 2 powr (of_int \<lfloor>log 2 \<bar>x\<bar>\<rfloor> + 1)"
proof -
  have pos: "0 < \<bar>x\<bar>" using assms by simp
  have "\<lfloor>log 2 \<bar>x\<bar>\<rfloor> = \<lfloor>log 2 \<bar>x\<bar>\<rfloor>" ..
  then have "2 powr of_int \<lfloor>log 2 \<bar>x\<bar>\<rfloor> \<le> \<bar>x\<bar>
      \<and> \<bar>x\<bar> < 2 powr (of_int \<lfloor>log 2 \<bar>x\<bar>\<rfloor> + 1)"
    using floor_log_eq_powr_iff [OF pos, of 2 "\<lfloor>log 2 \<bar>x\<bar>\<rfloor>"] by simp
  then show "2 powr of_int \<lfloor>log 2 \<bar>x\<bar>\<rfloor> \<le> \<bar>x\<bar>"
    and "\<bar>x\<bar> < 2 powr (of_int \<lfloor>log 2 \<bar>x\<bar>\<rfloor> + 1)"
    by simp_all
qed

lemma f64_round_0: "f64_round 0 = 0"
  by (simp add: f64_round_def)

lemma f64_round_minus: "f64_round (- x) = - f64_round x"
  by (simp add: f64_round_def Let_def round_half_even_minus)

lemma f64_round_unfold:
  assumes "0 < x"
  shows "f64_round x
    = of_int (round_half_even (x / 2 powr (of_int (max \<lfloor>log 2 x\<rfloor> (- 1022)) - 52)))
        * 2 powr (of_int (max \<lfloor>log 2 x\<rfloor> (- 1022)) - 52)"
proof -
  have "x \<noteq> 0" and "\<bar>x\<bar> = x" using assms by simp_all
  then show ?thesis by (simp add: f64_round_def Let_def)
qed

lemma f64_round_upper:
  assumes "0 < x"
  shows "f64_round x \<le> 2 powr (of_int (max \<lfloor>log 2 x\<rfloor> (- 1022)) + 1)"
proof -
  let ?e = "\<lfloor>log 2 x\<rfloor>"
  let ?E = "max ?e (- 1022)"
  let ?u = "2 powr (of_int ?E - 52) :: real"
  have ne: "x \<noteq> 0" and ab: "\<bar>x\<bar> = x" using assms by simp_all
  have u: "0 < ?u" by simp
  have "x < 2 powr (of_int ?e + 1)" using f64_exponent(2) [OF ne] unfolding ab .
  moreover have "(2::real) powr (of_int ?e + 1) \<le> 2 powr (of_int ?E + 1)" by simp
  ultimately have e2: "x < 2 powr (of_int ?E + 1)" by linarith
  have p1: "(2::real) powr (of_int ?E + 1) = 2 ^ 53 * ?u"
    by (simp add: powr_diff powr_add)
  have "x / ?u \<le> of_int (2 ^ 53)" using e2 u unfolding p1 by (simp add: pos_divide_le_eq)
  then have "round_half_even (x / ?u) \<le> round_half_even (of_int (2 ^ 53))"
    by (rule round_half_even_mono)
  then have hi: "round_half_even (x / ?u) \<le> 2 ^ 53" by (simp only: round_half_even_int)
  have "of_int (round_half_even (x / ?u)) \<le> (2::real) ^ 53"
    using hi by (metis of_int_le_iff of_int_numeral of_int_power)
  then have "of_int (round_half_even (x / ?u)) * ?u \<le> 2 ^ 53 * ?u"
    using u by (intro mult_right_mono) simp_all
  then show ?thesis unfolding f64_round_unfold [OF assms] p1 .
qed

lemma f64_round_lower:
  assumes "0 < x" and "- 1022 \<le> \<lfloor>log 2 x\<rfloor>"
  shows "2 powr of_int \<lfloor>log 2 x\<rfloor> \<le> f64_round x"
proof -
  let ?e = "\<lfloor>log 2 x\<rfloor>"
  let ?u = "2 powr (of_int ?e - 52) :: real"
  have E: "max ?e (- 1022) = ?e" using assms(2) by simp
  have ne: "x \<noteq> 0" and ab: "\<bar>x\<bar> = x" using assms by simp_all
  have u: "0 < ?u" by simp
  have e1: "2 powr of_int ?e \<le> x" using f64_exponent(1) [OF ne] unfolding ab .
  have p0: "(2::real) powr of_int ?e = 2 ^ 52 * ?u"
    by (simp add: powr_diff)
  have "of_int (2 ^ 52) \<le> x / ?u" using e1 u unfolding p0 by (simp add: pos_le_divide_eq)
  then have "round_half_even (of_int (2 ^ 52)) \<le> round_half_even (x / ?u)"
    by (rule round_half_even_mono)
  then have lo: "2 ^ 52 \<le> round_half_even (x / ?u)" by (simp only: round_half_even_int)
  have "(2::real) ^ 52 \<le> of_int (round_half_even (x / ?u))"
    using lo by (metis of_int_le_iff of_int_numeral of_int_power)
  then have "2 ^ 52 * ?u \<le> of_int (round_half_even (x / ?u)) * ?u"
    using u by (intro mult_right_mono) simp_all
  then show ?thesis unfolding f64_round_unfold [OF assms(1)] E p0 .
qed

lemma f64_round_nonneg:
  assumes "0 \<le> x"
  shows "0 \<le> f64_round x"
proof (cases "x = 0")
  case True
  then show ?thesis by (simp add: f64_round_0)
next
  case False
  then have pos: "0 < x" using assms by simp
  let ?u = "2 powr (of_int (max \<lfloor>log 2 x\<rfloor> (- 1022)) - 52) :: real"
  have "of_int 0 \<le> x / ?u" using pos by simp
  then have "round_half_even (of_int 0) \<le> round_half_even (x / ?u)"
    by (rule round_half_even_mono)
  then have "0 \<le> round_half_even (x / ?u)" by (simp only: round_half_even_int)
  then show ?thesis unfolding f64_round_unfold [OF pos] by simp
qed

lemma f64_round_mono_pos:
  assumes "0 < x" and "x \<le> y"
  shows "f64_round x \<le> f64_round y"
proof -
  let ?e = "\<lfloor>log 2 x\<rfloor>" and ?f = "\<lfloor>log 2 y\<rfloor>"
  let ?E = "max ?e (- 1022)" and ?F = "max ?f (- 1022)"
  have y: "0 < y" using assms by linarith
  have "log 2 x \<le> log 2 y" using assms by simp
  then have ef: "?e \<le> ?f" by (rule floor_mono)
  show ?thesis
  proof (cases "?E = ?F")
    case True
    let ?u = "2 powr (of_int ?E - 52) :: real"
    have u: "0 < ?u" by simp
    have "x / ?u \<le> y / ?u" using assms(2) u by (simp add: divide_right_mono)
    then have "round_half_even (x / ?u) \<le> round_half_even (y / ?u)"
      by (rule round_half_even_mono)
    then have "real_of_int (round_half_even (x / ?u)) * ?u \<le> of_int (round_half_even (y / ?u)) * ?u"
      using u by (intro mult_right_mono) simp_all
    then show ?thesis
      unfolding f64_round_unfold [OF assms(1)] f64_round_unfold [OF y] True [symmetric] .
  next
    case False
    then have lt: "?E + 1 \<le> ?f" and f: "- 1022 \<le> ?f" using ef by linarith+
    have "real_of_int ?E + 1 \<le> of_int ?f" using lt by linarith
    then have "(2::real) powr (of_int ?E + 1) \<le> 2 powr of_int ?f" by simp
    then show ?thesis
      using f64_round_upper [OF assms(1)] f64_round_lower [OF y f] by linarith
  qed
qed

lemma f64_round_mono:
  assumes "x \<le> y"
  shows "f64_round x \<le> f64_round y"
proof -
  consider "0 < x" | "x \<le> 0" "0 \<le> y" | "x < 0" "y < 0"
    using assms by linarith
  then show ?thesis
  proof cases
    case 1
    then show ?thesis using assms by (rule f64_round_mono_pos)
  next
    case 2
    have "0 \<le> f64_round (- x)" using 2(1) by (intro f64_round_nonneg) simp
    then have "f64_round x \<le> 0" by (simp add: f64_round_minus)
    moreover have "0 \<le> f64_round y" using 2(2) by (rule f64_round_nonneg)
    ultimately show ?thesis by linarith
  next
    case 3
    have "f64_round (- y) \<le> f64_round (- x)"
      using 3 assms by (intro f64_round_mono_pos) simp_all
    then show ?thesis by (simp add: f64_round_minus)
  qed
qed

lemma f64_round_pos:
  assumes "f64_underflow < x"
  shows "0 < f64_round x"
proof -
  have pos: "0 < x" using assms by (simp add: f64_underflow_def)
  show ?thesis
  proof (cases "- 1022 \<le> \<lfloor>log 2 x\<rfloor>")
    case True
    have "(0::real) < 2 powr of_int \<lfloor>log 2 x\<rfloor>" by simp
    then show ?thesis using f64_round_lower [OF pos True] by linarith
  next
    case False
    then have E: "max \<lfloor>log 2 x\<rfloor> (- 1022) = - 1022" by simp
    have u: "(2::real) powr (of_int (- 1022) - 52) = 2 * f64_underflow"
    proof -
      have "(2::real) powr (of_int (- 1022) - 52) = 2 powr (- 1074)" by simp
      also have "\<dots> = 1 / 2 ^ 1074" by (simp add: powr_minus_divide)
      also have "\<dots> = 2 * (1 / 2 ^ 1075)"
        using power_Suc [of "2::real" 1074] by simp
      finally show ?thesis by (simp add: f64_underflow_def)
    qed
    have up: "0 < f64_underflow" by (simp add: f64_underflow_def)
    have "1 / 2 < x / (2 * f64_underflow)" using assms up by (simp add: pos_less_divide_eq)
    then have "1 \<le> round_half_even (x / (2 * f64_underflow))" by (rule round_half_even_pos)
    then have "0 < real_of_int (round_half_even (x / (2 * f64_underflow)))" by simp
    then have "0 < real_of_int (round_half_even (x / (2 * f64_underflow))) * (2 * f64_underflow)"
      using up by (intro mult_pos_pos) simp_all
    then show ?thesis unfolding f64_round_unfold [OF pos] E u .
  qed
qed

lemma f64_round_1: "f64_round 1 = 1"
proof -
  have "(1::real) / 2 powr (- 52) = of_int (2 ^ 52)" by (simp add: powr_minus_divide)
  then have "round_half_even ((1::real) / 2 powr (- 52)) = 2 ^ 52"
    by (simp only: round_half_even_int)
  then show ?thesis by (simp add: f64_round_def powr_minus_divide)
qed

lemma round_half_even_le:
  assumes "x < of_int n + 1 / 2"
  shows "round_half_even x \<le> n"
proof (cases "\<lfloor>x\<rfloor> = n")
  case True
  then have "x - of_int \<lfloor>x\<rfloor> < 1 / 2" using assms by simp
  then show ?thesis using round_half_even_cases [of x] True by auto
next
  case False
  have "x < of_int (n + 1)" using assms by simp
  then have "\<lfloor>x\<rfloor> < n + 1" by (simp only: floor_less_iff)
  then have "\<lfloor>x\<rfloor> + 1 \<le> n" using False by simp
  then show ?thesis using round_half_even_bounds [of x] by linarith
qed

lemma f64_overflow_factor: "f64_overflow = (2 ^ 53 - 1 / 2) * 2 powr 971"
proof -
  have p: "(2::real) powr 971 = 2 ^ 971" by simp
  have "(2::real) ^ 1023 = 2 ^ 52 * 2 ^ 971" by (simp add: power_add [symmetric])
  then have "f64_overflow = (2 - 1 / 2 ^ 53) * (2 ^ 52 * 2 ^ 971)" by (simp only: f64_overflow_def)
  also have "\<dots> = ((2 - 1 / 2 ^ 53) * 2 ^ 52) * 2 ^ 971" by (simp only: mult.assoc)
  also have "(2 - 1 / 2 ^ 53) * 2 ^ 52 = (2 ^ 53 - 1 / 2 :: real)" by simp
  finally show ?thesis unfolding p .
qed

lemma f64_overflow_gt_normal: "2 powr 1023 < f64_overflow"
proof -
  have "(1::real) < 2 - 1 / 2 ^ 53" by simp
  then have "1 * (2::real) ^ 1023 < (2 - 1 / 2 ^ 53) * 2 ^ 1023"
    by (rule mult_strict_right_mono) simp
  then show ?thesis by (simp add: f64_overflow_def)
qed

lemma f64_round_lt_overflow:
  assumes "0 \<le> x" and "x < f64_overflow"
  shows "f64_round x < f64_overflow"
proof (cases "x = 0")
  case True
  then show ?thesis using f64_overflow_pos by (simp add: f64_round_0)
next
  case False
  then have pos: "0 < x" using assms(1) by simp
  let ?e = "\<lfloor>log 2 x\<rfloor>"
  let ?E = "max ?e (- 1022)"
  show ?thesis
  proof (cases "?E \<le> 1022")
    case True
    then have "real_of_int ?E + 1 \<le> 1023" by linarith
    then have "(2::real) powr (of_int ?E + 1) \<le> 2 powr 1023" by (simp only: powr_le_cancel_iff) 
    then show ?thesis using f64_round_upper [OF pos] f64_overflow_gt_normal by linarith
  next
    case False
    have ne: "x \<noteq> 0" and ab: "\<bar>x\<bar> = x" using pos by simp_all
    have "2 powr of_int ?e \<le> x" using f64_exponent(1) [OF ne] unfolding ab .
    moreover have "f64_overflow \<le> 2 powr 1024" using f64_overflow_bounds by simp
    ultimately have "(2::real) powr of_int ?e < 2 powr 1024" using assms(2) by linarith
    then have "real_of_int ?e < 1024" by (rule powr_less_cancel) simp
    then have "?e < 1024" by linarith
    then have E: "?E = 1023" using False by linarith
    let ?u = "2 powr 971 :: real"
    have u: "0 < ?u" by simp
    have uu: "2 powr (real_of_int 1023 - 52) = ?u" by simp
    have "x / ?u < of_int (2 ^ 53 - 1) + 1 / 2"
      using assms(2) u unfolding f64_overflow_factor by (simp add: pos_divide_less_eq)
    then have "round_half_even (x / ?u) \<le> 2 ^ 53 - 1" by (rule round_half_even_le)
    then have "real_of_int (round_half_even (x / ?u)) \<le> of_int (2 ^ 53 - 1)"
      by (simp only: of_int_le_iff)
    then have "real_of_int (round_half_even (x / ?u)) < 2 ^ 53 - 1 / 2" by simp
    then have "real_of_int (round_half_even (x / ?u)) * ?u < (2 ^ 53 - 1 / 2) * ?u"
      using u by (simp only: mult_less_cancel_right_pos)
    then show ?thesis unfolding f64_round_unfold [OF pos] E uu f64_overflow_factor .
  qed
qed

lemma f64_Num:
  assumes "0 \<le> x" and "x < f64_overflow"
  shows "f64 x = Num (f64_round x)"
proof -
  have a: "0 \<le> f64_round x" using assms(1) by (rule f64_round_nonneg)
  have b: "f64_round x < f64_overflow" using assms by (rule f64_round_lt_overflow)
  show ?thesis using a b f64_overflow_pos by (simp add: f64_def f64_sum_range_def)
qed

lemma f64_div_Num:
  assumes "b \<noteq> 0"
  shows "f64_div (Num a) (Num b) = f64 (a / b)"
  using assms by (simp add: f64_div_def)

lemma in_unit_scale_affine_f64:
  assumes "f64_underflow < hi - lo" and "hi - lo < f64_overflow" and "lo \<le> raw" and "raw \<le> hi"
  shows "in_unit (scale_affine_f64 lo hi raw)"
proof -
  let ?a = "f64_round (raw - lo)" and ?b = "f64_round (hi - lo)"
  have b: "0 < ?b" using assms(1) by (rule f64_round_pos)
  have a: "0 \<le> ?a" using assms(3) by (intro f64_round_nonneg) simp
  have ab: "?a \<le> ?b" using assms(4) by (intro f64_round_mono) simp
  have up: "0 < f64_underflow" by (simp add: f64_underflow_def)
  have fb: "f64 (hi - lo) = Num ?b" using assms(1,2) up by (intro f64_Num) simp_all
  have fa: "f64 (raw - lo) = Num ?a" using assms(2,3,4) by (intro f64_Num) simp_all
  have q0: "0 \<le> ?a / ?b" using a b by simp
  have q1: "?a / ?b \<le> 1" using ab b by simp
  have one: "1 < f64_overflow" using f64_thousand by linarith
  have fq: "f64 (?a / ?b) = Num (f64_round (?a / ?b))" using q0 q1 one by (intro f64_Num) simp_all
  have r0: "0 \<le> f64_round (?a / ?b)" using q0 by (rule f64_round_nonneg)
  have "f64_round (?a / ?b) \<le> f64_round 1" using q1 by (rule f64_round_mono)
  then have r1: "f64_round (?a / ?b) \<le> 1" by (simp only: f64_round_1)
  have ne: "?b \<noteq> 0" using b by simp
  have "scale_affine_f64 lo hi raw = Num (f64_round (?a / ?b))"
    unfolding scale_affine_f64_def fa fb f64_div_Num [OF ne] fq ..
  then show ?thesis using r0 r1 by (simp add: in_unit_def)
qed

lemma scale_affine_f64_mono:
  assumes "f64_underflow < hi - lo" and "hi - lo < f64_overflow"
    and "lo \<le> r1" and "r1 \<le> r2" and "r2 \<le> hi"
  shows "\<exists>a b. scale_affine_f64 lo hi r1 = Num a \<and> scale_affine_f64 lo hi r2 = Num b \<and> a \<le> b"
proof -
  let ?b = "f64_round (hi - lo)"
  let ?a1 = "f64_round (r1 - lo)" and ?a2 = "f64_round (r2 - lo)"
  have b: "0 < ?b" using assms(1) by (rule f64_round_pos)
  have ne: "?b \<noteq> 0" using b by simp
  have up: "0 < f64_underflow" by (simp add: f64_underflow_def)
  have one: "1 < f64_overflow" using f64_thousand by linarith
  have fb: "f64 (hi - lo) = Num ?b" using assms(1,2) up by (intro f64_Num) simp_all
  have f1: "f64 (r1 - lo) = Num ?a1" using assms by (intro f64_Num) simp_all
  have f2: "f64 (r2 - lo) = Num ?a2" using assms by (intro f64_Num) simp_all
  have a1: "0 \<le> ?a1" using assms by (intro f64_round_nonneg) simp
  have a12: "?a1 \<le> ?a2" using assms by (intro f64_round_mono) simp
  have a2: "?a2 \<le> ?b" using assms by (intro f64_round_mono) simp
  have q: "?a1 / ?b \<le> ?a2 / ?b" using a12 b by (simp add: divide_right_mono)
  have q1: "0 \<le> ?a1 / ?b" using a1 b by simp
  have q2: "?a2 / ?b \<le> 1" using a2 b by simp
  have fq1: "f64 (?a1 / ?b) = Num (f64_round (?a1 / ?b))"
    using q q1 q2 one by (intro f64_Num) simp_all
  have fq2: "f64 (?a2 / ?b) = Num (f64_round (?a2 / ?b))"
    using q q1 q2 one by (intro f64_Num) simp_all
  have s1: "scale_affine_f64 lo hi r1 = Num (f64_round (?a1 / ?b))"
    unfolding scale_affine_f64_def f1 fb f64_div_Num [OF ne] fq1 ..
  have s2: "scale_affine_f64 lo hi r2 = Num (f64_round (?a2 / ?b))"
    unfolding scale_affine_f64_def f2 fb f64_div_Num [OF ne] fq2 ..
  have "f64_round (?a1 / ?b) \<le> f64_round (?a2 / ?b)" using q by (rule f64_round_mono)
  then show ?thesis using s1 s2 by simp
qed

section \<open>Properties of the scaling\<close>

lemma fold_min_Min: "fold min xs (x::real) = Min (set (x # xs))"
  by (simp only: Min.set_eq_fold)

lemma fold_max_Max: "fold max xs (x::real) = Max (set (x # xs))"
  by (simp only: Max.set_eq_fold)

lemma np_min_Inr: "np_min xs = Inr m \<Longrightarrow> xs \<noteq> [] \<and> m = Min (set xs)"
  by (cases xs) (simp_all add: fold_min_Min del: set_simps)

lemma np_max_Inr: "np_max xs = Inr m \<Longrightarrow> xs \<noteq> [] \<and> m = Max (set xs)"
  by (cases xs) (simp_all add: fold_max_Max del: set_simps)

lemma is_finite_scale_affine: "is_finite (scale_affine lo hi raw) \<longleftrightarrow> lo \<noteq> hi"
  by (simp add: scale_affine_def fdiv_def is_finite_def)

lemma is_finite_scale_periodic: "is_finite (scale_periodic lo hi raw) \<longleftrightarrow> lo \<noteq> hi"
  by (simp add: scale_periodic_def fdiv_def is_finite_def np_cos_def fscale_add_def)

lemma scale_affine_Num: "lo \<noteq> hi \<Longrightarrow> scale_affine lo hi raw = Num ((raw - lo) / (hi - lo))"
  by (simp add: scale_affine_def fdiv_def)

lemma scale_periodic_Num:
  "lo \<noteq> hi \<Longrightarrow> scale_periodic lo hi raw = Num (1 / 2 * cos (2 * pi * (raw - lo) / (hi - lo)) + 1 / 2)"
  by (simp add: scale_periodic_def fdiv_def np_cos_def fscale_add_def)

lemma in_unit_scale_affine:
  "lo < hi \<Longrightarrow> in_unit (scale_affine lo hi raw) \<longleftrightarrow> lo \<le> raw \<and> raw \<le> hi"
  by (auto simp add: scale_affine_Num in_unit_def field_simps)

lemma in_unit_scale_periodic: "lo \<noteq> hi \<Longrightarrow> in_unit (scale_periodic lo hi raw)"
proof -
  assume h: "lo \<noteq> hi"
  let ?c = "cos (2 * pi * (raw - lo) / (hi - lo))"
  have "-1 \<le> ?c" and "?c \<le> 1" by (rule cos_ge_minus_one, rule cos_le_one)
  then have "0 \<le> 1 / 2 * ?c + 1 / 2 \<and> 1 / 2 * ?c + 1 / 2 \<le> 1" by linarith
  then show ?thesis unfolding scale_periodic_Num [OF h] in_unit_def by simp
qed

lemma training_extrema_Inr:
  assumes "training_extrema tR laR loR = Inr e"
  shows "tR \<noteq> [] \<and> laR \<noteq> [] \<and> loR \<noteq> []
    \<and> minTime e = Min (set tR) \<and> maxTime e = Max (set tR)
    \<and> minLat e = Min (set laR) \<and> maxLat e = Max (set laR)
    \<and> minLon e = Min (set loR) \<and> maxLon e = Max (set loR)"
  using assms unfolding training_extrema_def
  by (auto split: sum.splits dest!: np_min_Inr np_max_Inr)

lemma Min_eq_Max_iff:
  assumes "xs \<noteq> []"
  shows "Min (set xs) = Max (set xs) \<longleftrightarrow> (\<forall>x\<in>set xs. \<forall>y\<in>set xs. x = (y::real))"
proof
  assume eq: "Min (set xs) = Max (set xs)"
  show "\<forall>x\<in>set xs. \<forall>y\<in>set xs. x = y"
  proof (intro ballI)
    fix x y assume "x \<in> set xs" and "y \<in> set xs"
    then have "Min (set xs) \<le> x" "x \<le> Max (set xs)" "Min (set xs) \<le> y" "y \<le> Max (set xs)"
      by simp_all
    then show "x = y" using eq by linarith
  qed
next
  assume all: "\<forall>x\<in>set xs. \<forall>y\<in>set xs. x = y"
  have "Min (set xs) \<in> set xs" and "Max (set xs) \<in> set xs"
    using assms by (simp_all add: Min_in Max_in)
  then show "Min (set xs) = Max (set xs)" using all by blast
qed

lemma Min_le_Max_list: "xs \<noteq> [] \<Longrightarrow> Min (set xs) \<le> (Max (set xs) :: real)"
  by (simp add: Min_in)

lemma Min_le_mem: "x \<in> set xs \<Longrightarrow> Min (set xs) \<le> (x::real) \<and> x \<le> Max (set xs)"
  by simp

lemma mem_eq_Max:
  assumes "Min (set xs) = Max (set xs)" and "x \<in> set xs"
  shows "x = (Max (set xs) :: real)"
proof -
  have "Min (set xs) \<le> x" and "x \<le> Max (set xs)" using assms(2) by simp_all
  then show ?thesis using assms(1) by linarith
qed

lemma scale_affine_degenerate: "scale_affine v v v = NaN"
  by (simp add: scale_affine_def fdiv_def)

lemma scale_periodic_degenerate: "scale_periodic v v v = NaN"
  by (simp add: scale_periodic_def fdiv_def np_cos_def fscale_add_def)

lemma training_extrema_example_degenerate:
  "training_extrema [1984, 1984] [60, 90] [0, 360]
     = Inr \<lparr>minTime = 1984, maxTime = 1984, minLat = 60, maxLat = 90, minLon = 0, maxLon = 360\<rparr>"
  by (simp add: training_extrema_def)

lemma training_extrema_example:
  "training_extrema [1984, 2000, 2016] [60, 90, 75] [0, 360, 180]
     = Inr \<lparr>minTime = 1984, maxTime = 2016, minLat = 60, maxLat = 90, minLon = 0, maxLon = 360\<rparr>"
  by (simp add: training_extrema_def)

text \<open>
  Claim C7 says that every scaled component lies in \<open>[0,1]\<close>, also for the prediction
  points. The prediction cell scales the years up to 2040 with the extrema of the training
  data: with training times between 1984 and 2016 the year 2040 is scaled to \<open>7/4\<close>.
\<close>

theorem scaled_unit_interval_counterexample:
  "training_extrema [1984, 2000, 2016] [60, 90, 75] [0, 360, 180]
     = Inr \<lparr>minTime = 1984, maxTime = 2016, minLat = 60, maxLat = 90, minLon = 0, maxLon = 360\<rparr>
   \<and> fst (scale_new
         \<lparr>minTime = 1984, maxTime = 2016, minLat = 60, maxLat = 90, minLon = 0, maxLon = 360\<rparr>
         [2040] 76 28) = [Num (7 / 4)]
   \<and> \<not> in_unit (Num (7 / 4))"
  by (simp add: training_extrema_def scale_new_def scale_covariates_def scale_affine_def fdiv_def
      in_unit_def)

text \<open>
  Claim C7, amended. When each raw coordinate of the training data has a maximum strictly
  larger than its minimum, all three scaled components of every training observation lie in
  \<open>[0,1]\<close>. For prediction points scaled with the training extrema, the longitude component
  lies in \<open>[0,1]\<close>, and the time (latitude) component lies in \<open>[0,1]\<close> whenever the raw value
  lies between the training minimum and maximum. The last statement also holds for the time
  and the latitude as float64 computes them, each of the three operations being rounded,
  when the difference of the maximum and the minimum neither overflows nor is rounded to
  zero.
\<close>

theorem scaled_unit_interval:
  assumes "training_extrema tR laR loR = Inr e"
    and "minTime e < maxTime e" and "minLat e < maxLat e" and "minLon e < maxLon e"
  shows "scale_training tR laR loR = Inr (scale_covariates e tR laR loR)
    \<and> list_all in_unit (fst (scale_covariates e tR laR loR))
    \<and> list_all in_unit (fst (snd (scale_covariates e tR laR loR)))
    \<and> list_all in_unit (snd (snd (scale_covariates e tR laR loR)))
    \<and> list_all in_unit (snd (snd (scale_new e nT latPt lonPt)))
    \<and> ((\<forall>x\<in>set nT. minTime e \<le> x \<and> x \<le> maxTime e)
          \<longrightarrow> list_all in_unit (fst (scale_new e nT latPt lonPt)))
    \<and> (minLat e \<le> latPt \<and> latPt \<le> maxLat e
          \<longrightarrow> list_all in_unit (fst (snd (scale_new e nT latPt lonPt))))
    \<and> (\<forall>raw. f64_underflow < maxTime e - minTime e \<and> maxTime e - minTime e < f64_overflow
            \<and> minTime e \<le> raw \<and> raw \<le> maxTime e
          \<longrightarrow> in_unit (scale_affine_f64 (minTime e) (maxTime e) raw))
    \<and> (\<forall>raw. f64_underflow < maxLat e - minLat e \<and> maxLat e - minLat e < f64_overflow
            \<and> minLat e \<le> raw \<and> raw \<le> maxLat e
          \<longrightarrow> in_unit (scale_affine_f64 (minLat e) (maxLat e) raw))"
proof -
  note ex = training_extrema_Inr [OF assms(1)]
  have tr: "scale_training tR laR loR = Inr (scale_covariates e tR laR loR)"
    using assms(1) by (simp add: scale_training_def)
  have t: "list_all in_unit (fst (scale_covariates e tR laR loR))"
    using assms(2) ex
    by (simp add: scale_covariates_def list_all_iff in_unit_scale_affine)
  have a: "list_all in_unit (fst (snd (scale_covariates e tR laR loR)))"
    using assms(3) ex
    by (simp add: scale_covariates_def list_all_iff in_unit_scale_affine)
  have ne: "minLon e \<noteq> maxLon e" using assms(4) by simp
  have o: "list_all in_unit (snd (snd (scale_covariates e tR laR loR)))"
    by (simp add: scale_covariates_def list_all_iff in_unit_scale_periodic [OF ne])
  have no: "list_all in_unit (snd (snd (scale_new e nT latPt lonPt)))"
    by (simp add: scale_new_def scale_covariates_def list_all_iff in_unit_scale_periodic [OF ne])
  have nt: "(\<forall>x\<in>set nT. minTime e \<le> x \<and> x \<le> maxTime e)
          \<longrightarrow> list_all in_unit (fst (scale_new e nT latPt lonPt))"
    using assms(2)
    by (simp add: scale_new_def scale_covariates_def list_all_iff in_unit_scale_affine)
  have na: "minLat e \<le> latPt \<and> latPt \<le> maxLat e
          \<longrightarrow> list_all in_unit (fst (snd (scale_new e nT latPt lonPt)))"
    using assms(3)
    by (auto simp add: scale_new_def scale_covariates_def list_all_iff in_unit_scale_affine)
  have ft: "\<forall>raw. f64_underflow < maxTime e - minTime e \<and> maxTime e - minTime e < f64_overflow
            \<and> minTime e \<le> raw \<and> raw \<le> maxTime e
          \<longrightarrow> in_unit (scale_affine_f64 (minTime e) (maxTime e) raw)"
    using in_unit_scale_affine_f64 by blast
  have fa: "\<forall>raw. f64_underflow < maxLat e - minLat e \<and> maxLat e - minLat e < f64_overflow
            \<and> minLat e \<le> raw \<and> raw \<le> maxLat e
          \<longrightarrow> in_unit (scale_affine_f64 (minLat e) (maxLat e) raw)"
    using in_unit_scale_affine_f64 by blast
  show ?thesis by (intro conjI) (rule tr, rule t, rule a, rule o, rule no, rule nt, rule na,
    rule ft, rule fa)
qed

text \<open>The amended claim at the training data of the counterexample.\<close>

theorem scaled_unit_interval_witness:
  "training_extrema [1984, 2000, 2016] [60, 90, 75] [0, 360, 180]
     = Inr \<lparr>minTime = 1984, maxTime = 2016, minLat = 60, maxLat = 90, minLon = 0, maxLon = 360\<rparr>
   \<and> list_all in_unit (fst (scale_covariates
         \<lparr>minTime = 1984, maxTime = 2016, minLat = 60, maxLat = 90, minLon = 0, maxLon = 360\<rparr>
         [1984, 2000, 2016] [60, 90, 75] [0, 360, 180]))
   \<and> list_all in_unit (snd (snd (scale_new
         \<lparr>minTime = 1984, maxTime = 2016, minLat = 60, maxLat = 90, minLon = 0, maxLon = 360\<rparr>
         [1984, 2040] 76 28)))
   \<and> list_all in_unit (fst (scale_new
         \<lparr>minTime = 1984, maxTime = 2016, minLat = 60, maxLat = 90, minLon = 0, maxLon = 360\<rparr>
         [1984, 2016] 76 28))
   \<and> list_all in_unit (fst (snd (scale_new
         \<lparr>minTime = 1984, maxTime = 2016, minLat = 60, maxLat = 90, minLon = 0, maxLon = 360\<rparr>
         [1984, 2016] 76 28)))
   \<and> f64_underflow < 2016 - 1984 \<and> 2016 - 1984 < f64_overflow
   \<and> in_unit (scale_affine_f64 1984 2016 2000)
   \<and> f64_underflow < 90 - 60 \<and> 90 - 60 < f64_overflow
   \<and> in_unit (scale_affine_f64 60 90 76)"
proof -
  have r: "f64_underflow < 2016 - 1984" "2016 - 1984 < f64_overflow"
    "f64_underflow < 90 - 60" "90 - 60 < f64_overflow"
    using f64_thousand by simp_all
  show ?thesis
    using scaled_unit_interval [OF training_extrema_example, of "[1984, 2016]" 76 28]
      scaled_unit_interval [OF training_extrema_example, of "[1984, 2040]" 76 28]
      training_extrema_example r
    by simp
qed

lemma f64_round_eq:
  fixes x :: real and k :: int
  assumes "2 powr (of_int k) * 2 ^ 52 \<le> \<bar>x\<bar>" and "\<bar>x\<bar> < 2 powr (of_int k) * 2 ^ 53"
    and "- 1074 \<le> k"
  shows "f64_round x = of_int (round_half_even (x / 2 powr of_int k)) * 2 powr of_int k"
proof -
  have p52: "(2::real) powr (of_int (k + 52)) = 2 powr (of_int k) * 2 ^ 52"
    by (simp add: powr_add)
  have p53: "(2::real) powr (of_int (k + 52) + 1) = 2 powr (of_int k) * 2 ^ 53"
    by (simp add: powr_add)
  have pos: "0 < \<bar>x\<bar>"
  proof -
    have "(0::real) < 2 powr (of_int k) * 2 ^ 52" by simp
    then show ?thesis using assms(1) by linarith
  qed
  have "\<lfloor>log 2 \<bar>x\<bar>\<rfloor> = k + 52"
    using pos assms(1,2)
    unfolding floor_log_eq_powr_iff [OF pos, of 2, simplified] p52 [symmetric] p53 [symmetric]
    by simp
  moreover have "max (k + 52) (- 1022) = k + 52" using assms(3) by simp
  moreover have "x \<noteq> 0" using pos by simp
  ultimately show ?thesis by (simp add: f64_round_def Let_def)
qed

lemma powr_m53: "(2::real) powr (of_int (- 53)) = 1 / 2 ^ 53"
  by (simp add: powr_minus_divide)

lemma powr_m52: "(2::real) powr (of_int (- 52)) = 1 / 2 ^ 52"
  by (simp add: powr_minus_divide)

lemma powr_m51: "(2::real) powr (of_int (- 51)) = 1 / 2 ^ 51"
  by (simp add: powr_minus_divide)

lemma f64_round_3: "f64_round 3 = 3"
proof -
  have "(3::real) / (1 / 2 ^ 51) = of_int (3 * 2 ^ 51)" by simp
  then have r: "round_half_even ((3::real) / (1 / 2 ^ 51)) = 3 * 2 ^ 51"
    by (simp only: round_half_even_int)
  have "f64_round 3 = of_int (round_half_even (3 / 2 powr of_int (- 51))) * 2 powr of_int (- 51)"
    by (rule f64_round_eq) (simp_all add: powr_minus_divide)
  then show ?thesis unfolding powr_m51 r by simp
qed


lemma round_half_even_eq:
  assumes "of_int n - 1 / 2 < x" and "x < of_int n + 1 / 2"
  shows "round_half_even x = n"
proof (cases "of_int n \<le> x")
  case True
  then have "\<lfloor>x\<rfloor> = n" using assms(2) by (simp add: floor_eq_iff)
  then show ?thesis using assms(2) by (simp add: round_half_even_def)
next
  case False
  then have "\<lfloor>x\<rfloor> = n - 1" using assms(1) by (simp add: floor_eq_iff)
  then show ?thesis using assms(1) False by (simp add: round_half_even_def)
qed

lemma f64_round_raw1: "f64_round (3 / 2 + 1 / 2 ^ 52) = 3 / 2 + 1 / 2 ^ 52"
proof -
  let ?x = "3 / 2 + 1 / 2 ^ 52 :: real"
  have "?x / (1 / 2 ^ 52) = of_int (3 * 2 ^ 51 + 1)" by simp
  then have r: "round_half_even (?x / (1 / 2 ^ 52)) = 3 * 2 ^ 51 + 1"
    by (simp only: round_half_even_int)
  have "f64_round ?x = of_int (round_half_even (?x / 2 powr of_int (- 52))) * 2 powr of_int (- 52)"
    by (rule f64_round_eq) (simp_all add: powr_minus_divide)
  then show ?thesis unfolding powr_m52 r by simp
qed

lemma f64_round_raw2: "f64_round (3 / 2 + 1 / 2 ^ 51) = 3 / 2 + 1 / 2 ^ 51"
proof -
  let ?x = "3 / 2 + 1 / 2 ^ 51 :: real"
  have "?x / (1 / 2 ^ 52) = of_int (3 * 2 ^ 51 + 2)" by simp
  then have r: "round_half_even (?x / (1 / 2 ^ 52)) = 3 * 2 ^ 51 + 2"
    by (simp only: round_half_even_int)
  have "f64_round ?x = of_int (round_half_even (?x / 2 powr of_int (- 52))) * 2 powr of_int (- 52)"
    by (rule f64_round_eq) (simp_all add: powr_minus_divide)
  then show ?thesis unfolding powr_m52 r by simp
qed

lemma f64_round_quotient1:
  "f64_round ((3 / 2 + 1 / 2 ^ 52) / 3) = 1 / 2 + 1 / 2 ^ 53"
proof -
  let ?x = "(3 / 2 + 1 / 2 ^ 52) / 3 :: real"
  have r: "round_half_even (?x / (1 / 2 ^ 53)) = 2 ^ 52 + 1"
    by (rule round_half_even_eq) simp_all
  have "f64_round ?x = of_int (round_half_even (?x / 2 powr of_int (- 53))) * 2 powr of_int (- 53)"
    by (rule f64_round_eq) (simp_all add: powr_minus_divide)
  then show ?thesis unfolding powr_m53 r by simp
qed

lemma f64_round_quotient2:
  "f64_round ((3 / 2 + 1 / 2 ^ 51) / 3) = 1 / 2 + 1 / 2 ^ 53"
proof -
  let ?x = "(3 / 2 + 1 / 2 ^ 51) / 3 :: real"
  have r: "round_half_even (?x / (1 / 2 ^ 53)) = 2 ^ 52 + 1"
    by (rule round_half_even_eq) simp_all
  have "f64_round ?x = of_int (round_half_even (?x / 2 powr of_int (- 53))) * 2 powr of_int (- 53)"
    by (rule f64_round_eq) (simp_all add: powr_minus_divide)
  then show ?thesis unfolding powr_m53 r by simp
qed

lemma f64_exact:
  assumes "f64_round x = x" and "1 / 1000 \<le> x" and "x \<le> 1000"
  shows "f64 x = Num x"
  unfolding f64_def assms(1) using assms(2,3) by (rule f64_range_Num(2))

lemma scale_affine_f64_Num:
  assumes "b \<noteq> 0" and "f64 (hi - lo) = Num b" and "f64 (raw - lo) = Num a"
  shows "scale_affine_f64 lo hi raw = f64 (a / b)"
  using assms by (simp add: scale_affine_f64_def f64_div_def)

text \<open>
  Claim C9 says that the scaling of the time and of the latitude is injective when
  \<open>max > min\<close>. As float64 computes it, with minimum 0 and maximum 3, the two distinct
  float64 values \<open>1.5 + 2^-52\<close> and \<open>1.5 + 2^-51\<close> are both scaled to \<open>0.5 + 2^-53\<close>.
\<close>

theorem scaling_injectivity_counterexample:
  "scale_affine_f64 0 3 (3 / 2 + 1 / 2 ^ 52) = Num (1 / 2 + 1 / 2 ^ 53)
   \<and> scale_affine_f64 0 3 (3 / 2 + 1 / 2 ^ 51) = Num (1 / 2 + 1 / 2 ^ 53)
   \<and> (3 / 2 + 1 / 2 ^ 52 :: real) \<noteq> 3 / 2 + 1 / 2 ^ 51
   \<and> f64 (3 / 2 + 1 / 2 ^ 52) = Num (3 / 2 + 1 / 2 ^ 52)
   \<and> f64 (3 / 2 + 1 / 2 ^ 51) = Num (3 / 2 + 1 / 2 ^ 51)
   \<and> f64 3 = Num 3"
proof -
  have three: "(3::real) \<noteq> 0" by simp
  have f1: "f64 (3 / 2 + 1 / 2 ^ 52) = Num (3 / 2 + 1 / 2 ^ 52)"
    using f64_round_raw1 by (rule f64_exact) simp_all
  have f2: "f64 (3 / 2 + 1 / 2 ^ 51) = Num (3 / 2 + 1 / 2 ^ 51)"
    using f64_round_raw2 by (rule f64_exact) simp_all
  have f3: "f64 3 = Num 3" using f64_round_3 by (rule f64_exact) simp_all
  have q1: "f64 ((3 / 2 + 1 / 2 ^ 52) / 3) = Num (1 / 2 + 1 / 2 ^ 53)"
    unfolding f64_def f64_round_quotient1 by (rule f64_range_Num(2)) simp_all
  have q2: "f64 ((3 / 2 + 1 / 2 ^ 51) / 3) = Num (1 / 2 + 1 / 2 ^ 53)"
    unfolding f64_def f64_round_quotient2 by (rule f64_range_Num(2)) simp_all
  have hi: "f64 (3 - 0) = Num 3" unfolding diff_zero by (rule f3)
  have r1: "f64 (3 / 2 + 1 / 2 ^ 52 - 0) = Num (3 / 2 + 1 / 2 ^ 52)"
    unfolding diff_zero by (rule f1)
  have r2: "f64 (3 / 2 + 1 / 2 ^ 51 - 0) = Num (3 / 2 + 1 / 2 ^ 51)"
    unfolding diff_zero by (rule f2)
  have s1: "scale_affine_f64 0 3 (3 / 2 + 1 / 2 ^ 52) = Num (1 / 2 + 1 / 2 ^ 53)"
    unfolding scale_affine_f64_Num [OF three hi r1] by (rule q1)
  have s2: "scale_affine_f64 0 3 (3 / 2 + 1 / 2 ^ 51) = Num (1 / 2 + 1 / 2 ^ 53)"
    unfolding scale_affine_f64_Num [OF three hi r2] by (rule q2)
  have ne: "(3 / 2 + 1 / 2 ^ 52 :: real) \<noteq> 3 / 2 + 1 / 2 ^ 51" by simp
  show ?thesis
    by (intro conjI) (rule s1, rule s2, rule ne, rule f1, rule f2, rule f3)
qed

text \<open>
  Claim C9, amended. In exact real arithmetic the scaling of the time and of the latitude
  is injective when \<open>max > min\<close>; as float64 computes it, the scaling is non-decreasing on
  the raw range (when \<open>max - min\<close> neither overflows nor is rounded to zero), and distinct raw
  values within the rounding error can be scaled to the same value. The scaling of the
  longitude is not
  injective: the two ends of the raw range are distinct and are both scaled to the same
  value, so the scaling is not injective on the data range.
\<close>

theorem scaling_injectivity:
  assumes "lo < hi"
  shows "inj (scale_affine lo hi) \<and> lo \<noteq> hi \<and> lo \<in> {lo..hi} \<and> hi \<in> {lo..hi}
    \<and> scale_periodic lo hi lo = scale_periodic lo hi hi
    \<and> \<not> inj_on (scale_periodic lo hi) {lo..hi}
    \<and> (\<forall>r1 r2. f64_underflow < hi - lo \<and> hi - lo < f64_overflow
            \<and> lo \<le> r1 \<and> r1 \<le> r2 \<and> r2 \<le> hi \<longrightarrow>
          (\<exists>a b. scale_affine_f64 lo hi r1 = Num a \<and> scale_affine_f64 lo hi r2 = Num b
             \<and> a \<le> b))"
proof -
  have ne: "lo \<noteq> hi" using assms by simp
  have i: "inj (scale_affine lo hi)"
    using assms by (auto simp add: inj_def scale_affine_Num)
  have e: "scale_periodic lo hi lo = scale_periodic lo hi hi"
    using assms by (simp add: scale_periodic_Num)
  have "\<not> inj_on (scale_periodic lo hi) {lo..hi}"
  proof
    assume "inj_on (scale_periodic lo hi) {lo..hi}"
    then have "lo = hi" using e assms by (auto simp add: inj_on_def)
    then show False using ne by simp
  qed
  moreover have "\<forall>r1 r2. f64_underflow < hi - lo \<and> hi - lo < f64_overflow
            \<and> lo \<le> r1 \<and> r1 \<le> r2 \<and> r2 \<le> hi \<longrightarrow>
          (\<exists>a b. scale_affine_f64 lo hi r1 = Num a \<and> scale_affine_f64 lo hi r2 = Num b
             \<and> a \<le> b)"
    using scale_affine_f64_mono by blast
  ultimately show ?thesis using i e ne assms by simp
qed

text \<open>For longitudes between 0 and 360 degrees.\<close>

theorem scaling_injectivity_witness:
  "(0::real) < 360 \<and> inj (scale_affine 0 360) \<and> scale_periodic 0 360 0 = scale_periodic 0 360 360
    \<and> \<not> inj_on (scale_periodic 0 360) {0..360}
    \<and> f64_underflow < 360 - 0 \<and> 360 - 0 < f64_overflow
    \<and> (\<exists>a b. scale_affine_f64 0 360 90 = Num a \<and> scale_affine_f64 0 360 180 = Num b \<and> a \<le> b)"
proof -
  have lt: "(0::real) < 360" by simp
  have r: "f64_underflow < 360 - 0" "360 - 0 < f64_overflow" using f64_thousand by simp_all
  note f = scaling_injectivity [OF lt]
  have "\<forall>r1 r2. f64_underflow < 360 - 0 \<and> 360 - 0 < f64_overflow
            \<and> 0 \<le> r1 \<and> r1 \<le> r2 \<and> r2 \<le> 360 \<longrightarrow>
          (\<exists>a b. scale_affine_f64 0 360 r1 = Num a \<and> scale_affine_f64 0 360 r2 = Num b
             \<and> a \<le> b)"
    using f by (elim conjE)
  then have "\<exists>a b. scale_affine_f64 0 360 90 = Num a \<and> scale_affine_f64 0 360 180 = Num b \<and> a \<le> b"
    using r by simp
  then show ?thesis using f lt r by simp
qed


text \<open>
  Claim C10. Every scaling formula divides by \<open>max - min\<close> without a guard. The extrema of
  the training data satisfy \<open>min \<le> max\<close>, with equality exactly when all raw values of
  that coordinate are equal. In that case the scaled training values of the coordinate are
  all NaN and the scaled prediction points are non-finite; when the maximum is strictly
  larger than the minimum for each coordinate, every scaled value is finite, so the division
  by zero is not reached.
\<close>

theorem scaling_needs_distinct_extrema:
  assumes "training_extrema tR laR loR = Inr e"
  shows "minTime e \<le> maxTime e \<and> minLat e \<le> maxLat e \<and> minLon e \<le> maxLon e
    \<and> ((minTime e = maxTime e) = (\<forall>x\<in>set tR. \<forall>y\<in>set tR. x = y))
    \<and> ((minLat e = maxLat e) = (\<forall>x\<in>set laR. \<forall>y\<in>set laR. x = y))
    \<and> ((minLon e = maxLon e) = (\<forall>x\<in>set loR. \<forall>y\<in>set loR. x = y))
    \<and> (minTime e = maxTime e \<longrightarrow>
          fst (scale_covariates e tR laR loR) = replicate (length tR) NaN
          \<and> list_all (\<lambda>v. \<not> is_finite v) (fst (scale_new e nT latPt lonPt)))
    \<and> (minLat e = maxLat e \<longrightarrow>
          fst (snd (scale_covariates e tR laR loR)) = replicate (length laR) NaN
          \<and> list_all (\<lambda>v. \<not> is_finite v) (fst (snd (scale_new e nT latPt lonPt))))
    \<and> (minLon e = maxLon e \<longrightarrow>
          snd (snd (scale_covariates e tR laR loR)) = replicate (length loR) NaN
          \<and> list_all (\<lambda>v. \<not> is_finite v) (snd (snd (scale_new e nT latPt lonPt))))
    \<and> (minTime e < maxTime e \<and> minLat e < maxLat e \<and> minLon e < maxLon e \<longrightarrow>
          (\<forall>raw. is_finite (scale_affine (minTime e) (maxTime e) raw)
             \<and> is_finite (scale_affine (minLat e) (maxLat e) raw)
             \<and> is_finite (scale_periodic (minLon e) (maxLon e) raw)))"
proof -
  note ex = training_extrema_Inr [OF assms]
  have le: "minTime e \<le> maxTime e \<and> minLat e \<le> maxLat e \<and> minLon e \<le> maxLon e"
    using ex by (simp add: Min_le_Max_list)
  have eqT: "(minTime e = maxTime e) = (\<forall>x\<in>set tR. \<forall>y\<in>set tR. x = y)"
    using ex Min_eq_Max_iff [of tR] by simp
  have eqA: "(minLat e = maxLat e) = (\<forall>x\<in>set laR. \<forall>y\<in>set laR. x = y)"
    using ex Min_eq_Max_iff [of laR] by simp
  have eqO: "(minLon e = maxLon e) = (\<forall>x\<in>set loR. \<forall>y\<in>set loR. x = y)"
    using ex Min_eq_Max_iff [of loR] by simp
  have dT: "fst (scale_covariates e tR laR loR) = replicate (length tR) NaN"
    if h: "minTime e = maxTime e"
  proof -
    have "\<forall>x\<in>set tR. x = maxTime e"
      using h ex mem_eq_Max [of tR] by simp
    then have "map (scale_affine (maxTime e) (maxTime e)) tR = replicate (length tR) NaN"
      by (simp add: map_replicate_const [symmetric] scale_affine_degenerate cong: map_cong)
    then show ?thesis using h by (simp add: scale_covariates_def)
  qed
  have dA: "fst (snd (scale_covariates e tR laR loR)) = replicate (length laR) NaN"
    if h: "minLat e = maxLat e"
  proof -
    have "\<forall>x\<in>set laR. x = maxLat e"
      using h ex mem_eq_Max [of laR] by simp
    then have "map (scale_affine (maxLat e) (maxLat e)) laR = replicate (length laR) NaN"
      by (simp add: map_replicate_const [symmetric] scale_affine_degenerate cong: map_cong)
    then show ?thesis using h by (simp add: scale_covariates_def)
  qed
  have dO: "snd (snd (scale_covariates e tR laR loR)) = replicate (length loR) NaN"
    if h: "minLon e = maxLon e"
  proof -
    have "\<forall>x\<in>set loR. x = maxLon e"
      using h ex mem_eq_Max [of loR] by simp
    then have "map (scale_periodic (maxLon e) (maxLon e)) loR = replicate (length loR) NaN"
      by (simp add: map_replicate_const [symmetric] scale_periodic_degenerate cong: map_cong)
    then show ?thesis using h by (simp add: scale_covariates_def)
  qed
  have nT: "list_all (\<lambda>v. \<not> is_finite v) (fst (scale_new e nT latPt lonPt))"
    if "minTime e = maxTime e"
    using that by (simp add: scale_new_def scale_covariates_def list_all_iff is_finite_scale_affine)
  have nA: "list_all (\<lambda>v. \<not> is_finite v) (fst (snd (scale_new e nT latPt lonPt)))"
    if "minLat e = maxLat e"
    using that by (simp add: scale_new_def scale_covariates_def list_all_iff is_finite_scale_affine)
  have nO: "list_all (\<lambda>v. \<not> is_finite v) (snd (snd (scale_new e nT latPt lonPt)))"
    if "minLon e = maxLon e"
    using that by (simp add: scale_new_def scale_covariates_def list_all_iff is_finite_scale_periodic)
  have fin: "\<forall>raw. is_finite (scale_affine (minTime e) (maxTime e) raw)
             \<and> is_finite (scale_affine (minLat e) (maxLat e) raw)
             \<and> is_finite (scale_periodic (minLon e) (maxLon e) raw)"
    if "minTime e < maxTime e \<and> minLat e < maxLat e \<and> minLon e < maxLon e"
    using that by (simp add: is_finite_scale_affine is_finite_scale_periodic)
  show ?thesis
    using le eqT eqA eqO dT dA dO nT nA nO fin by blast
qed

text \<open>Both branches at concrete data: equal raw times, and three distinct values per
  coordinate.\<close>

theorem scaling_needs_distinct_extrema_witness:
  "training_extrema [1984, 1984] [60, 90] [0, 360]
     = Inr \<lparr>minTime = 1984, maxTime = 1984, minLat = 60, maxLat = 90, minLon = 0, maxLon = 360\<rparr>
   \<and> fst (scale_covariates
         \<lparr>minTime = 1984, maxTime = 1984, minLat = 60, maxLat = 90, minLon = 0, maxLon = 360\<rparr>
         [1984, 1984] [60, 90] [0, 360]) = [NaN, NaN]
   \<and> list_all (\<lambda>v. \<not> is_finite v) (fst (scale_new
         \<lparr>minTime = 1984, maxTime = 1984, minLat = 60, maxLat = 90, minLon = 0, maxLon = 360\<rparr>
         [1984, 2040] 76 28))
   \<and> training_extrema [1984, 2000, 2016] [60, 90, 75] [0, 360, 180]
     = Inr \<lparr>minTime = 1984, maxTime = 2016, minLat = 60, maxLat = 90, minLon = 0, maxLon = 360\<rparr>
   \<and> is_finite (scale_affine 1984 2016 2040) \<and> is_finite (scale_affine 60 90 76)
   \<and> is_finite (scale_periodic 0 360 28)"
  using scaling_needs_distinct_extrema [OF training_extrema_example_degenerate, of "[1984, 2040]" 76 28]
    scaling_needs_distinct_extrema [OF training_extrema_example, of "[]" 0 0]
    training_extrema_example_degenerate training_extrema_example
  by simp

section \<open>Layout of the block design matrix\<close>

lemma range_len_stride:
  assumes "c < K"
  shows "range_len c (K * N) K = N"
proof (cases N)
  case 0
  then show ?thesis by (simp add: range_len_def)
next
  case (Suc M)
  have lt: "c < K * N" using assms Suc by (simp add: trans_less_add1)
  obtain d where d: "K = Suc (c + d)" using assms less_imp_Suc_add by blast
  have "K * N - c - 1 = d + M * K" using Suc d by (simp add: algebra_simps)
  moreover have "d < K" using d by simp
  ultimately have "(K * N - c - 1) div K = M" using assms by simp
  then show ?thesis using lt Suc by (simp add: range_len_def)
qed

lemma stride_row_iff:
  fixes i c K :: nat
  assumes "c < K"
  shows "(c \<le> i \<and> (i - c) mod K = 0) \<longleftrightarrow> i mod K = c"
proof
  assume h: "c \<le> i \<and> (i - c) mod K = 0"
  then have "K dvd (i - c)" by (simp add: mod_eq_0_iff_dvd)
  then obtain q where "i - c = K * q" by (auto simp add: dvd_def)
  then have "i = c + K * q" using h by simp
  then show "i mod K = c" using assms by simp
next
  assume h: "i mod K = c"
  have i: "i = K * (i div K) + c" using h by (metis mult_div_mod_eq)
  then have "c \<le> i" by simp
  moreover have "i - c = K * (i div K)" using i by simp
  then have "(i - c) mod K = 0" by (metis mod_mult_self1_is_0)
  ultimately show "c \<le> i \<and> (i - c) mod K = 0" by simp
qed

lemma stride_row_div:
  fixes i c K :: nat
  assumes "i mod K = c"
  shows "(i - c) div K = i div K"
proof (cases "K = 0")
  case True then show ?thesis using assms by simp
next
  case False
  have i: "i = K * (i div K) + c" using assms by (metis mult_div_mod_eq)
  then have "i - c = K * (i div K)" by simp
  then show ?thesis using False by (metis nonzero_mult_div_cancel_left)
qed


lemma setitem_stamp:
  assumes "c < K" and "shape0 V = K * N" and "shape1 V = K * T"
    and "shape0 P = N" and "shape1 P = T"
  shows "setitem_strided V c K (c * T) ((c + 1) * T) P =
     Inr (V\<lparr>item := (\<lambda>i j. if i < K * N \<and> i mod K = c \<and> c * T \<le> j \<and> j < (c + 1) * T
                           then item P (i div K) (j - c * T) else item V i j)\<rparr>)"
proof -
  have K: "K \<noteq> 0" using assms(1) by simp
  have "c + 1 \<le> K" using assms(1) by simp
  then have le: "(c + 1) * T \<le> K * T" by (rule mult_le_mono1)
  have c0: "min (c * T) (shape1 V) = c * T" using le assms(3) by simp
  have c1: "max (c * T) (min ((c + 1) * T) (shape1 V)) = (c + 1) * T"
    using le assms(3) by simp
  have w: "(c + 1) * T - c * T = T" by simp
  have bc: "broadcastable (shape0 P, shape1 P) (range_len c (shape0 V) K, (c + 1) * T - c * T)"
    unfolding w using assms by (simp add: broadcastable_def range_len_stride)
  have f: "(\<lambda>i j. if c \<le> i \<and> i < shape0 V \<and> (i - c) mod K = 0 \<and> c * T \<le> j \<and> j < (c + 1) * T
                 then item P (if shape0 P = 1 then 0 else (i - c) div K)
                             (if shape1 P = 1 then 0 else j - c * T)
                 else item V i j)
         = (\<lambda>i j. if i < K * N \<and> i mod K = c \<and> c * T \<le> j \<and> j < (c + 1) * T
                 then item P (i div K) (j - c * T) else item V i j)"
  proof (intro ext)
    fix i j
    show "(if c \<le> i \<and> i < shape0 V \<and> (i - c) mod K = 0 \<and> c * T \<le> j \<and> j < (c + 1) * T
                 then item P (if shape0 P = 1 then 0 else (i - c) div K)
                             (if shape1 P = 1 then 0 else j - c * T)
                 else item V i j)
         = (if i < K * N \<and> i mod K = c \<and> c * T \<le> j \<and> j < (c + 1) * T
                 then item P (i div K) (j - c * T) else item V i j)"
    proof (cases "i < K * N \<and> i mod K = c \<and> c * T \<le> j \<and> j < (c + 1) * T")
      case True
      then have r: "c \<le> i \<and> (i - c) mod K = 0" using stride_row_iff [OF assms(1), of i] by simp
      have d: "(i - c) div K = i div K" using True stride_row_div [of i K c] by simp
      have i0: "i div K = 0" if "N = 1" using that True by simp
      have j0: "j - c * T = 0" if "T = 1" using that True by simp
      show ?thesis using True r d i0 j0 assms by simp
    next
      case False
      then show ?thesis using stride_row_iff [OF assms(1), of i] assms(2) by auto
    qed
  qed
  show ?thesis
    unfolding setitem_strided_def Let_def c0 c1 using K bc f by simp
qed

lemma stamp_layout:
  assumes "\<forall>c\<in>set cs. c < K" and "shape0 V = K * N" and "shape1 V = K * T"
    and "shape0 P = N" and "shape1 P = T"
  shows "\<exists>W. stamp cs K T P V = Inr W \<and> shape0 W = K * N \<and> shape1 W = K * T
    \<and> (\<forall>i j. item W i j =
          (if i < K * N \<and> i mod K \<in> set cs \<and> (i mod K) * T \<le> j \<and> j < (i mod K + 1) * T
           then item P (i div K) (j - (i mod K) * T) else item V i j))"
  using assms
proof (induction cs arbitrary: V)
  case Nil
  then show ?case by simp
next
  case (Cons c cs)
  let ?V' = "V\<lparr>item := (\<lambda>i j. if i < K * N \<and> i mod K = c \<and> c * T \<le> j \<and> j < (c + 1) * T
                           then item P (i div K) (j - c * T) else item V i j)\<rparr>"
  have c: "c < K" using Cons.prems(1) by simp
  have s: "setitem_strided V c K (c * T) ((c + 1) * T) P = Inr ?V'"
    using setitem_stamp [OF c Cons.prems(2) Cons.prems(3) Cons.prems(4) Cons.prems(5)] .
  have "\<exists>W. stamp cs K T P ?V' = Inr W \<and> shape0 W = K * N \<and> shape1 W = K * T
    \<and> (\<forall>i j. item W i j =
          (if i < K * N \<and> i mod K \<in> set cs \<and> (i mod K) * T \<le> j \<and> j < (i mod K + 1) * T
           then item P (i div K) (j - (i mod K) * T) else item ?V' i j))"
    using Cons.prems by (intro Cons.IH) simp_all
  then obtain W where W: "stamp cs K T P ?V' = Inr W" "shape0 W = K * N" "shape1 W = K * T"
    "\<forall>i j. item W i j =
          (if i < K * N \<and> i mod K \<in> set cs \<and> (i mod K) * T \<le> j \<and> j < (i mod K + 1) * T
           then item P (i div K) (j - (i mod K) * T) else item ?V' i j)"
    by blast
  have "stamp (c # cs) K T P V = Inr W" using s W(1) by simp
  moreover have "\<forall>i j. item W i j =
          (if i < K * N \<and> i mod K \<in> set (c # cs) \<and> (i mod K) * T \<le> j \<and> j < (i mod K + 1) * T
           then item P (i div K) (j - (i mod K) * T) else item V i j)"
    using W(4) by auto
  ultimately show ?case using W(2,3) by blast
qed


lemma block_design_toy:
  "map_sum id tolist (block_design 2 2 1 (np_array [[1], [2]]))
     = Inr [[1, 0], [0, 1], [2, 0], [0, 2]]"
  by (simp add: block_design_def np_zeros_def np_array_def setitem_strided_def tolist_def
      range_len_def broadcastable_def upt_rec [of _ "numeral n" for n] upt_rec [of _ "Suc 0"]
      Let_def)

text \<open>
  Claim C1. For a per-class design matrix of shape \<open>N \<times> T\<close> the stamping loop raises no
  exception and returns a matrix of shape \<open>(N*K) \<times> (T*K)\<close>; its row \<open>n*K + c\<close> holds row
  \<open>n\<close> of the per-class matrix in the columns \<open>[c*T, (c+1)*T)\<close> and zero in every other
  column. For \<open>N = 2\<close>, \<open>K = 2\<close>, \<open>T = 1\<close> and the per-class matrix \<open>[[1],[2]]\<close> the
  result is \<open>[[1,0],[0,1],[2,0],[0,2]]\<close>.
\<close>

theorem block_design_layout:
  assumes "shape0 P = N" and "shape1 P = T"
  shows "(\<exists>V. block_design K N T P = Inr V \<and> shape0 V = N * K \<and> shape1 V = T * K
      \<and> (\<forall>n<N. \<forall>c<K. \<forall>j<T * K.
            item V (n * K + c) j =
              (if c * T \<le> j \<and> j < (c + 1) * T then item P n (j - c * T) else 0)))
    \<and> map_sum id tolist (block_design 2 2 1 (np_array [[1], [2]]))
          = Inr [[1, 0], [0, 1], [2, 0], [0, 2]]"
proof -
  let ?Z = "np_zeros (K * N) (K * T)"
  have "\<exists>W. stamp [0..<K] K T P ?Z = Inr W \<and> shape0 W = K * N \<and> shape1 W = K * T
    \<and> (\<forall>i j. item W i j =
          (if i < K * N \<and> i mod K \<in> set [0..<K] \<and> (i mod K) * T \<le> j \<and> j < (i mod K + 1) * T
           then item P (i div K) (j - (i mod K) * T) else item ?Z i j))"
    using assms by (intro stamp_layout) (simp_all add: np_zeros_def)
  then obtain W where W: "stamp [0..<K] K T P ?Z = Inr W" "shape0 W = K * N" "shape1 W = K * T"
    and it: "\<And>i j. item W i j =
          (if i < K * N \<and> i mod K \<in> set [0..<K] \<and> (i mod K) * T \<le> j \<and> j < (i mod K + 1) * T
           then item P (i div K) (j - (i mod K) * T) else item ?Z i j)"
    by blast
  have e: "item W (n * K + c) j =
              (if c * T \<le> j \<and> j < (c + 1) * T then item P n (j - c * T) else 0)"
    if "n < N" and "c < K" for n c j
  proof -
    have m: "(n * K + c) mod K = c" and d: "(n * K + c) div K = n" using that(2) by simp_all
    have "n * K + c < N * K"
    proof -
      have "n * K + c < n * K + K" using that(2) by simp
      also have "\<dots> = (n + 1) * K" by simp
      also have "\<dots> \<le> N * K" using that(1) by (intro mult_le_mono1) simp
      finally show ?thesis .
    qed
    then have l: "n * K + c < K * N" by (simp add: mult.commute)
    show ?thesis unfolding it m d using l that(2) by (simp add: np_zeros_def)
  qed
  have "block_design K N T P = Inr W" using W(1) by (simp add: block_design_def)
  then have "\<exists>V. block_design K N T P = Inr V \<and> shape0 V = N * K \<and> shape1 V = T * K
      \<and> (\<forall>n<N. \<forall>c<K. \<forall>j<T * K.
            item V (n * K + c) j =
              (if c * T \<le> j \<and> j < (c + 1) * T then item P n (j - c * T) else 0))"
    using W(2,3) e by (simp add: mult.commute)
  then show ?thesis using block_design_toy by blast
qed


text \<open>Three classes, two observations, two terms per class: row 5 is observation 1,
  class 2.\<close>

theorem block_design_layout_witness:
  "shape0 (np_array [[1, 2], [3, 4]]) = 2 \<and> shape1 (np_array [[1, 2], [3, 4]]) = 2
   \<and> (\<exists>V. block_design 3 2 2 (np_array [[1, 2], [3, 4]]) = Inr V
         \<and> shape0 V = 6 \<and> shape1 V = 6
         \<and> item V 5 3 = 0 \<and> item V 5 4 = 3 \<and> item V 5 5 = 4)"
proof -
  let ?P = "np_array [[1, 2], [3, 4]]"
  have s0: "shape0 ?P = 2" and s1: "shape1 ?P = 2" by (simp_all add: np_array_def)
  from block_design_layout [OF s0 s1, of 3]
  obtain V where V: "block_design 3 2 2 ?P = Inr V" "shape0 V = 2 * 3" "shape1 V = 2 * 3"
    and e: "\<forall>n<2. \<forall>c<3. \<forall>j<2 * 3. item V (n * 3 + c) j =
              (if c * 2 \<le> j \<and> j < (c + 1) * 2 then item ?P n (j - c * 2) else 0)"
    by blast
  have r: "item V (1 * 3 + 2) j =
              (if 2 * 2 \<le> j \<and> j < (2 + 1) * 2 then item ?P 1 (j - 2 * 2) else 0)"
    if "j < 2 * 3" for j
    using e [rule_format, of 1 2 j] that by simp
  have "item V 5 3 = 0" and "item V 5 4 = 3" and "item V 5 5 = 4"
    using r [of 3] r [of 4] r [of 5] by (simp_all add: np_array_def)
  then show ?thesis using V s0 s1 by simp
qed

section \<open>Properties of the class probabilities\<close>


























lemma upt_2: "[0..<2] = [0, 1]"
  by (simp add: upt_rec [of _ "numeral n" for n] upt_rec [of _ "Suc 0"])








text \<open>
  Claim C5 says that the aggregator fails when no sample is retained. With
  \<open>burnIn = NumSamples = 5\<close> the range of the loop is empty and the cell returns the empty
  array of shape \<open>(3, 1, 0)\<close> without an error.
\<close>

theorem no_retained_samples_counterexample:
  "class_probabilities 3 1 5 5 (np_array [[1, 0, 0], [0, 1, 0], [0, 0, 1]]) (np_zeros 3 5)
     = np_zeros3 3 1 0
   \<and> \<not> isl (class_probabilities 3 1 5 5 (np_array [[1, 0, 0], [0, 1, 0], [0, 0, 1]])
         (np_zeros 3 5))"
  by (simp add: class_probabilities_def np_zeros3_def)

text \<open>
  Claim C5, amended. When the burn-in equals the number of samples, the cell raises no error
  and returns the empty array of shape \<open>(numClasses, M, 0)\<close>; when the burn-in exceeds the
  number of samples, the allocation of \<open>probs\<close> raises ValueError (a negative dimension).
\<close>

theorem no_retained_samples:
  "(NumSamples = burnIn \<longrightarrow>
      class_probabilities K M NumSamples burnIn V sampMat = np_zeros3 K M 0
      \<and> \<not> isl (class_probabilities K M NumSamples burnIn V sampMat))
   \<and> (NumSamples < burnIn \<longrightarrow>
      class_probabilities K M NumSamples burnIn V sampMat = Inl ValueError)"
  by (simp add: class_probabilities_def np_zeros3_def)

text \<open>With the notebook's 3 classes, 57 prediction points and 100000 samples.\<close>

theorem no_retained_samples_witness:
  "class_probabilities 3 57 100000 100000 (np_zeros 171 30) (np_zeros 30 100000)
     = np_zeros3 3 57 0
   \<and> class_probabilities 3 57 100000 100001 (np_zeros 171 30) (np_zeros 30 100000)
     = Inl ValueError"
  using no_retained_samples [of 100000 100000 3 57 "np_zeros 171 30" "np_zeros 30 100000"]
    no_retained_samples [of 100000 100001 3 57 "np_zeros 171 30" "np_zeros 30 100000"]
  by simp

section \<open>Properties of the summary statistics\<close>
















section \<open>Properties of the posterior density\<close>

lemma posterior_graph_eq:
  "posterior_graph V K ages =
     \<lparr>nodes = [(''Parameters'', IdentityOperator (shape1 V)), (''Posterior'', DensityProduct 2),
               (''Prior'', GaussianDensity (prior_mean V) (prior_covariance V)),
               (''ForwardModel'', DenseLinearOperator V),
               (''Likelihood'', MultiLogisticLikelihood K ages)],
      edges = [\<lparr>source = ''Parameters'', source_output = 0, target = ''Prior'', target_input = 0\<rparr>,
               \<lparr>source = ''Parameters'', source_output = 0, target = ''ForwardModel'', target_input = 0\<rparr>,
               \<lparr>source = ''ForwardModel'', source_output = 0, target = ''Likelihood'', target_input = 0\<rparr>,
               \<lparr>source = ''Likelihood'', source_output = 0, target = ''Posterior'', target_input = 1\<rparr>,
               \<lparr>source = ''Prior'', source_output = 0, target = ''Posterior'', target_input = 0\<rparr>]\<rparr>"
  by (simp add: posterior_graph_def WorkGraph_def AddNode_def AddEdge_def Let_def)

lemma evaluate_parameters:
  assumes "length m = shape1 V"
  shows "evaluate_node (Suc d) (posterior_graph V K ages) m ''Parameters'' = Inr m"
  using assms by (simp add: posterior_graph_eq)

lemma evaluate_prior:
  assumes "length m = shape1 V"
  shows "evaluate_node (Suc (Suc d)) (posterior_graph V K ages) m ''Prior''
    = Inr [gaussian_log_density (prior_mean V) (prior_covariance V) m]"
  unfolding evaluate_node.simps(2) [of "Suc d"] evaluate_parameters [OF assms]
  using assms
  by (simp add: posterior_graph_eq prior_mean_def prior_covariance_def scale_array_def np_eye_def)

lemma evaluate_forward:
  assumes "length m = shape1 V" and "np_dot V m = Inr s"
  shows "evaluate_node (Suc (Suc d)) (posterior_graph V K ages) m ''ForwardModel'' = Inr s"
  unfolding evaluate_node.simps(2) [of "Suc d"] evaluate_parameters [OF assms(1)]
  using assms by (simp add: posterior_graph_eq)


lemma np_dot_Inr:
  assumes "shape1 V = length m"
  shows "np_dot V m = Inr (map (\<lambda>r. sum_list (map (\<lambda>j. item V r j * m ! j) [0..<shape1 V]))
                  [0..<shape0 V])"
  using assms by (simp add: np_dot_def)

lemma evaluate_likelihood:
  assumes "length m = shape1 V" and "np_dot V m = Inr s" and "length s = K * length ages"
    and "list_all (\<lambda>y. y < K) ages"
  shows "evaluate_node (Suc (Suc (Suc d))) (posterior_graph V K ages) m ''Likelihood''
    = Inr [multi_logistic_log_likelihood K ages s]"
  unfolding evaluate_node.simps(2) [of "Suc (Suc d)"]
  using assms evaluate_forward [OF assms(1) assms(2), of d K ages]
  by (simp add: posterior_graph_eq)

lemma evaluate_posterior:
  assumes "length m = shape1 V" and "np_dot V m = Inr s" and "length s = K * length ages"
    and "list_all (\<lambda>y. y < K) ages"
  shows "evaluate_node (Suc (Suc (Suc (Suc d)))) (posterior_graph V K ages) m ''Posterior''
    = Inr [gaussian_log_density (prior_mean V) (prior_covariance V) m
           + multi_logistic_log_likelihood K ages s]"
  unfolding evaluate_node.simps(2) [of "Suc (Suc (Suc d))"]
  using evaluate_likelihood [OF assms, of d] evaluate_prior [OF assms(1), of "Suc d" K ages]
  by (simp add: posterior_graph_eq upt_2)

text \<open>
  Claim C2. For every parameter vector \<open>m\<close> with one entry per column of the block design
  matrix \<open>V\<close> and every label array with labels below the number of classes and one label per
  observation, the Posterior node of the notebook's graph evaluates to exactly the log-density
  of the prior at \<open>m\<close> plus the log-likelihood of the labels at \<open>V@m\<close>. The evaluation
  returns this value at every depth bound from 4 on, and so does \<open>CreateModPiece\<close>.
\<close>

theorem posterior_is_prior_plus_likelihood:
  assumes "length m = shape1 V" and "shape0 V = numClasses * length ages"
    and "list_all (\<lambda>y. y < numClasses) ages"
  shows "\<exists>s. np_dot V m = Inr s
    \<and> evaluate_piece (GaussianDensity (prior_mean V) (prior_covariance V)) [m]
        = Inr [gaussian_log_density (prior_mean V) (prior_covariance V) m]
    \<and> evaluate_piece (MultiLogisticLikelihood numClasses ages) [s]
        = Inr [multi_logistic_log_likelihood numClasses ages s]
    \<and> posterior_log_density V numClasses ages m
        = Inr [gaussian_log_density (prior_mean V) (prior_covariance V) m
               + multi_logistic_log_likelihood numClasses ages s]
    \<and> (\<forall>d. evaluate_node (4 + d) (posterior_graph V numClasses ages) m ''Posterior''
        = Inr [gaussian_log_density (prior_mean V) (prior_covariance V) m
               + multi_logistic_log_likelihood numClasses ages s])"
proof -
  let ?s = "map (\<lambda>r. sum_list (map (\<lambda>j. item V r j * m ! j) [0..<shape1 V])) [0..<shape0 V]"
  have dot: "np_dot V m = Inr ?s" using assms(1) by (simp add: np_dot_def)
  have len: "length ?s = numClasses * length ages" using assms(2) by simp
  have pr: "evaluate_piece (GaussianDensity (prior_mean V) (prior_covariance V)) [m]
        = Inr [gaussian_log_density (prior_mean V) (prior_covariance V) m]"
    using assms(1)
    by (simp add: prior_mean_def prior_covariance_def scale_array_def np_eye_def)
  have li: "evaluate_piece (MultiLogisticLikelihood numClasses ages) [?s]
        = Inr [multi_logistic_log_likelihood numClasses ages ?s]"
    using len assms(3) by simp
  have ev: "evaluate_node (4 + d) (posterior_graph V numClasses ages) m ''Posterior''
        = Inr [gaussian_log_density (prior_mean V) (prior_covariance V) m
               + multi_logistic_log_likelihood numClasses ages ?s]" for d
  proof -
    have e: "4 + d = Suc (Suc (Suc (Suc d)))" by simp
    show ?thesis unfolding e by (rule evaluate_posterior [OF assms(1) dot len assms(3)])
  qed
  have n: "length (nodes (posterior_graph V numClasses ages)) = 4 + 1"
    by (simp add: posterior_graph_eq)
  have po: "posterior_log_density V numClasses ages m
        = Inr [gaussian_log_density (prior_mean V) (prior_covariance V) m
               + multi_logistic_log_likelihood numClasses ages ?s]"
    unfolding posterior_log_density_def CreateModPiece_def n using ev [of 1] .
  show ?thesis using dot pr li po ev by blast
qed


text \<open>Two classes, one observation with label 1, one term per class.\<close>

theorem posterior_is_prior_plus_likelihood_witness:
  "\<exists>s. np_dot (np_array [[1, 0], [0, 1]]) [1, 2] = Inr s
    \<and> posterior_log_density (np_array [[1, 0], [0, 1]]) 2 [1] [1, 2]
        = Inr [gaussian_log_density (prior_mean (np_array [[1, 0], [0, 1]]))
                 (prior_covariance (np_array [[1, 0], [0, 1]])) [1, 2]
               + multi_logistic_log_likelihood 2 [1] s]"
proof -
  let ?V = "np_array [[1, 0], [0, 1]]"
  have a: "length [1, 2 :: real] = shape1 ?V" by (simp add: np_array_def)
  have b: "shape0 ?V = 2 * length [1 :: nat]" by (simp add: np_array_def)
  have c: "list_all (\<lambda>y. y < 2) [1 :: nat]" by simp
  show ?thesis using posterior_is_prior_plus_likelihood [OF a b c] by blast
qed

lemma block_design_shape:
  assumes "shape0 P = N" and "shape1 P = T"
  shows "\<exists>V. block_design K N T P = Inr V \<and> shape0 V = K * N \<and> shape1 V = K * T"
proof -
  let ?Z = "np_zeros (K * N) (K * T)"
  have "\<exists>W. stamp [0..<K] K T P ?Z = Inr W \<and> shape0 W = K * N \<and> shape1 W = K * T
    \<and> (\<forall>i j. item W i j =
          (if i < K * N \<and> i mod K \<in> set [0..<K] \<and> (i mod K) * T \<le> j \<and> j < (i mod K + 1) * T
           then item P (i div K) (j - (i mod K) * T) else item ?Z i j))"
    using assms by (intro stamp_layout) (simp_all add: np_zeros_def)
  then show ?thesis by (auto simp add: block_design_def)
qed

lemma upt_4: "[0..<4] = [0, 1, 2, 3]"
  by (simp add: upt_rec [of _ "numeral n" for n] upt_rec [of _ "Suc 0"])

lemma upt_8: "[0..<8] = [0, 1, 2, 3, 4, 5, 6, 7]"
  by (simp add: upt_rec [of _ "numeral n" for n] upt_rec [of _ "Suc 0"])

lemma likelihood_at_zero:
  "multi_logistic_log_likelihood 2 [0, 1, 0, 1] [0, 0, 0, 0, 0, 0, 0, 0] = 4 * ln (1 / 2)"
  by (simp add: multi_logistic_log_likelihood_def upt_4 upt_2 ln_div)

lemma prior_at_zero:
  "gaussian_log_density [0, 0, 0, 0] (scale_array 100 (np_eye 4)) [0, 0, 0, 0]
     = - 2 * ln (200 * pi)"
  by (simp add: gaussian_log_density_def scale_array_def np_eye_def upt_4)

lemma scenario_posterior:
  "posterior_of_design 2 (np_array [[1, 0], [1, 1 / 4], [1, 3 / 4], [1, 1]]) [0, 1, 0, 1]
      [0, 0, 0, 0]
     = Inr [gaussian_log_density [0, 0, 0, 0] (scale_array 100 (np_eye 4)) [0, 0, 0, 0]
            + multi_logistic_log_likelihood 2 [0, 1, 0, 1] [0, 0, 0, 0, 0, 0, 0, 0]]"
proof -
  let ?P = "np_array [[1, 0], [1, 1 / 4], [1, 3 / 4], [1, 1]]"
  let ?m = "[0, 0, 0, 0 :: real]" and ?ages = "[0, 1, 0, 1 :: nat]"
  have s0: "shape0 ?P = 4" and s1: "shape1 ?P = 2" by (simp_all add: np_array_def)
  obtain V where V: "block_design 2 4 2 ?P = Inr V" "shape0 V = 2 * 4" "shape1 V = 2 * 2"
    using block_design_shape [OF s0 s1, of 2] by blast
  have dot: "np_dot V ?m = Inr [0, 0, 0, 0, 0, 0, 0, 0]"
    using V(2,3) by (simp add: np_dot_def upt_4 upt_8)
  have len: "length [0, 0, 0, 0, 0, 0, 0, 0 :: real] = 2 * length ?ages" by simp
  have m: "length ?m = shape1 V" using V(3) by simp
  have ok: "list_all (\<lambda>y. y < 2) ?ages" by simp
  have n: "length (nodes (posterior_graph V 2 ?ages)) = Suc (Suc (Suc (Suc 1)))"
    by (simp add: posterior_graph_eq)
  have pm: "prior_mean V = [0, 0, 0, 0]" using V(3) by (simp add: prior_mean_def numeral_eq_Suc)
  have pc: "prior_covariance V = scale_array 100 (np_eye 4)"
    using V(3) by (simp add: prior_covariance_def)
  have "posterior_log_density V 2 ?ages ?m
     = Inr [gaussian_log_density (prior_mean V) (prior_covariance V) ?m
            + multi_logistic_log_likelihood 2 ?ages [0, 0, 0, 0, 0, 0, 0, 0]]"
    unfolding posterior_log_density_def CreateModPiece_def n
    by (rule evaluate_posterior [OF m dot len ok])
  then have "posterior_log_density V 2 ?ages ?m
     = Inr [gaussian_log_density [0, 0, 0, 0] (scale_array 100 (np_eye 4)) ?m
            + multi_logistic_log_likelihood 2 ?ages [0, 0, 0, 0, 0, 0, 0, 0]]"
    unfolding pm pc .
  moreover have l: "length ?ages = 4" by simp
  ultimately show ?thesis unfolding posterior_of_design_def l s1 V(1) by simp
qed

text \<open>
  Claim C4 says that the posterior at the all-zeros parameter vector equals the log-density of
  the prior at zero. In the scenario of the claim it does not: the log-likelihood
  \<open>4 * ln (1/2)\<close> is added to it.
\<close>

theorem posterior_at_zero_counterexample:
  "posterior_of_design 2 (np_array [[1, 0], [1, 1 / 4], [1, 3 / 4], [1, 1]]) [0, 1, 0, 1]
      [0, 0, 0, 0]
     \<noteq> Inr [gaussian_log_density [0, 0, 0, 0] (scale_array 100 (np_eye 4)) [0, 0, 0, 0]]"
  unfolding scenario_posterior likelihood_at_zero by (simp add: ln_div)

text \<open>
  Claim C4, amended. In the scenario with 2 classes, the order-1 basis \<open>[1, x]\<close> at
  \<open>x = [0, 0.25, 0.75, 1]\<close>, the labels \<open>[0,1,0,1]\<close> and the prior with mean 0 and covariance
  \<open>100 * I\<close>, the posterior at the all-zeros parameter vector is the log-density of the prior
  at zero plus the log-likelihood \<open>4 * ln (1/2)\<close>; the log-density of the prior at zero is
  \<open>- 2 * ln (200 * pi)\<close>.
\<close>

theorem posterior_at_zero:
  "posterior_of_design 2 (np_array [[1, 0], [1, 1 / 4], [1, 3 / 4], [1, 1]]) [0, 1, 0, 1]
      [0, 0, 0, 0]
     = Inr [gaussian_log_density [0, 0, 0, 0] (scale_array 100 (np_eye 4)) [0, 0, 0, 0]
            + 4 * ln (1 / 2)]
   \<and> multi_logistic_log_likelihood 2 [0, 1, 0, 1] [0, 0, 0, 0, 0, 0, 0, 0] = 4 * ln (1 / 2)
   \<and> evaluate_piece (GaussianDensity [0, 0, 0, 0] (scale_array 100 (np_eye 4))) [[0, 0, 0, 0]]
     = Inr [gaussian_log_density [0, 0, 0, 0] (scale_array 100 (np_eye 4)) [0, 0, 0, 0]]
   \<and> gaussian_log_density [0, 0, 0, 0] (scale_array 100 (np_eye 4)) [0, 0, 0, 0]
     = - 2 * ln (200 * pi)"
proof -
  have p: "evaluate_piece (GaussianDensity [0, 0, 0, 0] (scale_array 100 (np_eye 4)))
      [[0, 0, 0, 0]]
     = Inr [gaussian_log_density [0, 0, 0, 0] (scale_array 100 (np_eye 4)) [0, 0, 0, 0]]"
    by (simp add: scale_array_def np_eye_def)
  have e: "posterior_of_design 2 (np_array [[1, 0], [1, 1 / 4], [1, 3 / 4], [1, 1]])
      [0, 1, 0, 1] [0, 0, 0, 0]
     = Inr [gaussian_log_density [0, 0, 0, 0] (scale_array 100 (np_eye 4)) [0, 0, 0, 0]
            + 4 * ln (1 / 2)]"
    unfolding scenario_posterior likelihood_at_zero ..
  show ?thesis
    by (intro conjI) (rule e, rule likelihood_at_zero, rule p, rule prior_at_zero)
qed

end
